theory Spec2Isabelle
  imports Main "HOL-Library.Word"
begin

unbundle bit_operations_syntax

section \<open>Constants of the two public headers\<close>

type_synonym uint8_t = "8 word"
type_synonym uint16_t = "16 word"

definition TRACTOR_STATUS_UPDATE_CYCLE :: nat where
  "TRACTOR_STATUS_UPDATE_CYCLE = 40"

definition ENGINE_SPEED_IDLE :: uint8_t where
  "ENGINE_SPEED_IDLE = 64"

definition ENGINE_SPEED_MIN :: uint8_t where
  "ENGINE_SPEED_MIN = 68"

definition ENGINE_SPEED_MAX :: uint8_t where
  "ENGINE_SPEED_MAX = 168"

text \<open>The anonymous enum of ignition positions; the field that stores one is a
  \<open>uint8_t\<close>, so the constants are bytes.\<close>

definition IGNITION_OFF :: uint8_t where
  "IGNITION_OFF = 0"

definition IGNITION_ON :: uint8_t where
  "IGNITION_ON = 1"

definition IGNITION_START :: uint8_t where
  "IGNITION_START = 2"

text \<open>The enum of horn songs.\<close>

definition SONG_SINGLE_HONK :: uint8_t where
  "SONG_SINGLE_HONK = 0"

definition SONG_DOUBLE_HONK :: uint8_t where
  "SONG_DOUBLE_HONK = 1"

definition SONG_DIXIE :: uint8_t where
  "SONG_DIXIE = 2"

definition SONG_COUNT :: uint8_t where
  "SONG_COUNT = 3"

section \<open>The horn player of the sound manager\<close>

definition HORN_NOTE_DURATION :: uint8_t where
  "HORN_NOTE_DURATION = of_nat (160 div TRACTOR_STATUS_UPDATE_CYCLE)"

definition HORN_PAUSE_DURATION :: uint8_t where
  "HORN_PAUSE_DURATION = of_nat (40 div TRACTOR_STATUS_UPDATE_CYCLE)"

definition MAX_SONG_SIZE :: nat where
  "MAX_SONG_SIZE = 30"

text \<open>\<open>struct Song\<close>: the fields \<open>size\<close> and \<open>note\<close>, renamed because both words
  are taken in Isabelle. The array \<open>note[MAX_SONG_SIZE]\<close> is a list of that length.\<close>

record Song =
  size_Song :: uint8_t
  note_Song :: "uint8_t list"

text \<open>The macro \<open>SONG(...)\<close>: the size is the number of notes given, and the
  aggregate initialiser fills the rest of the array with zeros.\<close>

definition SONG :: "uint8_t list \<Rightarrow> Song" where
  "SONG ns = \<lparr>size_Song = of_nat (length ns),
              note_Song = ns @ replicate (MAX_SONG_SIZE - length ns) 0\<rparr>"

definition SONG_LIBRARY :: "Song list" where
  "SONG_LIBRARY =
     [SONG [64, 64, 64],
      SONG [64, 64, 0, 64, 64],
      SONG [64, 80, 64, 64, 0, 64, 64, 0, 64, 72, 80, 85,
            96, 96, 0, 96, 96, 0, 96, 96, 0, 80, 80]]"

record Horn =
  song :: Song
  current_note :: uint8_t
  note_counter :: uint8_t
  index_increment :: uint8_t
  playing :: bool

text \<open>The static initialiser of \<open>horn\<close>.\<close>

definition horn_init :: Horn where
  "horn_init = \<lparr>song = \<lparr>size_Song = 0, note_Song = replicate MAX_SONG_SIZE 0\<rparr>,
                 current_note = 0, note_counter = 0, index_increment = 0,
                 playing = False\<rparr>"

definition audio_play_horn_song :: "uint8_t \<Rightarrow> Horn \<Rightarrow> Horn" where
  "audio_play_horn_song sg h =
     (if sg < SONG_COUNT then
        h\<lparr>song := SONG_LIBRARY ! unat sg,
          current_note := 0,
          note_counter := 0,
          index_increment := note_Song (SONG_LIBRARY ! unat sg) ! 0,
          playing := True\<rparr>
      else h)"

text \<open>The local \<open>duration\<close> of \<open>audio_horn_manager\<close>, as a function of the
  current index increment.\<close>

definition horn_duration :: "uint8_t \<Rightarrow> uint8_t" where
  "horn_duration inc = (if inc \<noteq> 0 then HORN_NOTE_DURATION else HORN_PAUSE_DURATION)"

text \<open>The body of \<open>if (++horn.note_counter >= duration)\<close>, counter already
  incremented.\<close>

definition horn_advance :: "uint8_t \<Rightarrow> Horn \<Rightarrow> Horn" where
  "horn_advance duration h =
     (if duration \<le> note_counter h then
        (let h1 = h\<lparr>note_counter := 0, current_note := current_note h + 1\<rparr>
         in if size_Song (song h1) < current_note h1 then h1\<lparr>playing := False\<rparr> else h1)
      else h)"

text \<open>\<open>audio_horn_manager\<close>. The last statement reads \<open>note[current_note]\<close>; a
  read past the end of the array has no defined result in C, so there the model
  returns \<open>None\<close>.\<close>

definition audio_horn_manager :: "Horn \<Rightarrow> Horn option" where
  "audio_horn_manager h =
     (if playing h then
        (let duration = horn_duration (index_increment h);
             h1 = horn_advance duration (h\<lparr>note_counter := note_counter h + 1\<rparr>)
         in if unat (current_note h1) < length (note_Song (song h1))
            then Some (h1\<lparr>index_increment := note_Song (song h1) ! unat (current_note h1)\<rparr>)
            else None)
      else Some h)"

section \<open>The sample generator of the sound manager\<close>

text \<open>The two wave tables and their sizes come from \<open>engine_running.h\<close> and
  \<open>tractor_horn.h\<close>, which are generated files; they are parameters here. The
  table of the engine track is called \<open>ENGINE_RUNNING\<close> in the source, a name
  that the engine status below also has, hence the suffix.\<close>

record Tracks =
  ENGINE_RUNNING_track :: "uint8_t list"
  ENGINE_RUNNING_SIZE :: nat
  TRACTOR_HORN :: "uint8_t list"
  TRACTOR_HORN_SIZE :: nat

record SampleIndex =
  engine :: uint16_t
  horn :: uint16_t

definition sample_index_init :: SampleIndex where
  "sample_index_init = \<lparr>engine = 0, horn = 0\<rparr>"

text \<open>\<open>AVR_PGM_READ_BYTE(T[i])\<close>: a read outside the table is \<open>None\<close>.\<close>

definition read_byte :: "uint8_t list \<Rightarrow> nat \<Rightarrow> uint8_t option" where
  "read_byte tab i = (if i < length tab then Some (tab ! i) else None)"

text \<open>The three-way choice of both tracks, on the sub-sample \<open>offset\<close>, with the
  thresholds 16 and 48 that both branches of the source use.\<close>

definition pick_sample :: "uint8_t list \<Rightarrow> nat \<Rightarrow> uint8_t \<Rightarrow> uint8_t option" where
  "pick_sample tab index offset =
     (if offset < 16 then read_byte tab index
      else if offset < 48 then
        (case read_byte tab index of
           None \<Rightarrow> None
         | Some a \<Rightarrow> (case read_byte tab (index + 1) of
                       None \<Rightarrow> None
                     | Some b \<Rightarrow> Some (drop_bit 1 a + drop_bit 1 b)))
      else read_byte tab (index + 1))"

text \<open>The engine block of \<open>audio_get_next_sample\<close>: the new engine index and the
  engine sample. \<open>ENGINE_RUNNING_SIZE << 4\<close> is taken as the number it denotes.\<close>

definition engine_block :: "Tracks \<Rightarrow> uint8_t \<Rightarrow> uint16_t \<Rightarrow> (uint8_t \<times> uint16_t) option" where
  "engine_block tr engine_speed e =
     (if engine_speed \<noteq> 0 then
        (let e1 = e + ucast (drop_bit 2 engine_speed);
             e2 = (if ENGINE_RUNNING_SIZE tr * 16 \<le> unat e1
                   then e1 - of_nat (ENGINE_RUNNING_SIZE tr * 16) else e1);
             index = unat (drop_bit 4 e2);
             offset = (ucast (e2 AND 0x000F) :: uint8_t)
         in map_option (\<lambda>s. (s, e2)) (pick_sample (ENGINE_RUNNING_track tr) index offset))
      else Some (128, 0))"

text \<open>The horn block of \<open>audio_get_next_sample\<close>.\<close>

definition horn_block :: "Tracks \<Rightarrow> Horn \<Rightarrow> uint16_t \<Rightarrow> (uint8_t \<times> uint16_t) option" where
  "horn_block tr h x =
     (if playing h \<and> index_increment h \<noteq> 0 then
        (let x1 = x + ucast (index_increment h);
             x2 = (if TRACTOR_HORN_SIZE tr * 64 \<le> unat x1
                   then x1 - of_nat (TRACTOR_HORN_SIZE tr * 64) else x1);
             index = unat (drop_bit 6 x2);
             offset = (ucast (x2 AND 0x003F) :: uint8_t)
         in map_option (\<lambda>s. (s, x2)) (pick_sample (TRACTOR_HORN tr) index offset))
      else Some (128, 0))"

text \<open>The mixer: \<open>int16_t sample = engine_sample + horn_sample - 128\<close>, saturated
  to 0..255.\<close>

definition mix :: "uint8_t \<Rightarrow> uint8_t \<Rightarrow> uint8_t" where
  "mix engine_sample horn_sample =
     (let sample = uint engine_sample + uint horn_sample - 128
      in if 255 < sample then 255 else if sample < 0 then 0 else word_of_int sample)"

definition audio_get_next_sample ::
  "Tracks \<Rightarrow> uint8_t \<Rightarrow> SampleIndex \<times> Horn \<Rightarrow> (uint8_t \<times> SampleIndex) option" where
  "audio_get_next_sample tr engine_speed st =
     (case st of (si, h) \<Rightarrow>
        (case engine_block tr engine_speed (engine si) of
           None \<Rightarrow> None
         | Some (engine_sample, e) \<Rightarrow>
             (case horn_block tr h (horn si) of
                None \<Rightarrow> None
              | Some (horn_sample, x) \<Rightarrow>
                  Some (mix engine_sample horn_sample, \<lparr>engine = e, horn = x\<rparr>))))"

section \<open>The tractor model\<close>

definition CRANKING_MINIMUM_TIME :: uint8_t where
  "CRANKING_MINIMUM_TIME = of_nat (4000 div TRACTOR_STATUS_UPDATE_CYCLE)"

definition CRANKING_ENGINE_SPEED :: uint8_t where
  "CRANKING_ENGINE_SPEED = of_nat (2 * unat ENGINE_SPEED_IDLE div 5)"

definition HORN_CYCLE :: uint16_t where
  "HORN_CYCLE = of_nat (16000 div TRACTOR_STATUS_UPDATE_CYCLE)"

definition LED_CYCLE :: uint8_t where
  "LED_CYCLE = of_nat (3000 div TRACTOR_STATUS_UPDATE_CYCLE)"

text \<open>\<open>enum EngineStatus\<close>, stored in the \<open>uint8_t\<close> field \<open>status\<close>.\<close>

definition ENGINE_OFF :: uint8_t where
  "ENGINE_OFF = 0"

definition ENGINE_CRANKING :: uint8_t where
  "ENGINE_CRANKING = 1"

definition ENGINE_RUNNING :: uint8_t where
  "ENGINE_RUNNING = 2"

record Tractor =
  engine_speed :: uint16_t
  horn_counter :: uint16_t
  status :: uint8_t
  engine_speed_setpoint :: uint8_t
  ignition_position :: uint8_t
  cranking_counter :: uint8_t
  led_counter :: uint8_t

definition tractor_init :: Tractor where
  "tractor_init = \<lparr>engine_speed = 0, horn_counter = 0, status = ENGINE_OFF,
                    engine_speed_setpoint = 0, ignition_position = IGNITION_OFF,
                    cranking_counter = 0, led_counter = 0\<rparr>"

text \<open>The filter is computed in 32 bits and cut to 16.\<close>

definition update_engine_speed :: "nat \<Rightarrow> Tractor \<Rightarrow> Tractor" where
  "update_engine_speed a t =
     t\<lparr>engine_speed :=
         ucast (drop_bit a
           (push_bit a (ucast (engine_speed t) :: 32 word)
            - ucast (engine_speed t)
            + ucast (push_bit 8 (ucast (engine_speed_setpoint t) :: uint16_t))))\<rparr>"

definition tractor_get_engine_speed :: "Tractor \<Rightarrow> uint8_t" where
  "tractor_get_engine_speed t = ucast (drop_bit 8 (engine_speed t))"

definition is_led_on :: "Tractor \<Rightarrow> bool" where
  "is_led_on t =
     (if ENGINE_SPEED_MIN \<le> tractor_get_engine_speed t
      then (led_counter t AND 0x01 \<noteq> 0 \<and> led_counter t < 12)
      else False)"

text \<open>The three arms of the \<open>switch\<close> of \<open>tractor_update_model\<close>, each on the
  pair of the tractor and the horn player, which the last arm starts songs on.\<close>

definition update_default :: "Tractor \<times> Horn \<Rightarrow> Tractor \<times> Horn" where
  "update_default st =
     (case st of (t, h) \<Rightarrow>
        (let t1 = (if ignition_position t = IGNITION_START
                   then t\<lparr>status := ENGINE_CRANKING,
                          engine_speed_setpoint := CRANKING_ENGINE_SPEED,
                          cranking_counter := 0\<rparr>
                   else t)
         in (update_engine_speed 2 t1, h)))"

definition update_cranking :: "Tractor \<times> Horn \<Rightarrow> Tractor \<times> Horn" where
  "update_cranking st =
     (case st of (t, h) \<Rightarrow>
        (let t1 = t\<lparr>cranking_counter := cranking_counter t + 1\<rparr>;
             t2 = (if CRANKING_MINIMUM_TIME < cranking_counter t1
                   then t1\<lparr>status := ENGINE_RUNNING,
                           engine_speed_setpoint := ENGINE_SPEED_IDLE,
                           horn_counter := 0,
                           led_counter := LED_CYCLE\<rparr>
                   else if ignition_position t1 \<noteq> IGNITION_START
                   then t1\<lparr>status := ENGINE_OFF, engine_speed_setpoint := 0\<rparr>
                   else t1)
         in (update_engine_speed 4 t2, h)))"

text \<open>The horn timer of the running engine: the statements under
  \<open>tractor_get_engine_speed() >= ENGINE_SPEED_MIN\<close>, before the filter.\<close>

definition horn_timer :: "Tractor \<times> Horn \<Rightarrow> Tractor \<times> Horn" where
  "horn_timer st =
     (case st of (t, h) \<Rightarrow>
        (let t1 = t\<lparr>horn_counter := horn_counter t + 1\<rparr>
         in if horn_counter t1 = HORN_CYCLE div 2
            then (t1, audio_play_horn_song SONG_DOUBLE_HONK h)
            else if HORN_CYCLE \<le> horn_counter t1
            then (t1\<lparr>horn_counter := 0\<rparr>, audio_play_horn_song SONG_SINGLE_HONK h)
            else (t1, h)))"

definition update_running :: "Tractor \<times> Horn \<Rightarrow> Tractor \<times> Horn" where
  "update_running st =
     (case st of (t, h) \<Rightarrow>
        (if ignition_position t = IGNITION_OFF
         then (t\<lparr>status := ENGINE_OFF, engine_speed_setpoint := 0\<rparr>, h)
         else
           (let (t1, h1) =
                  (if ENGINE_SPEED_MIN \<le> tractor_get_engine_speed t
                   then (case horn_timer (t, h) of
                           (t', h') \<Rightarrow> (update_engine_speed 6 t', h'))
                   else (update_engine_speed 4 t, h));
                t2 = t1\<lparr>led_counter := led_counter t1 + 1\<rparr>;
                t3 = (if LED_CYCLE < led_counter t2 then t2\<lparr>led_counter := 0\<rparr> else t2)
            in (t3, h1))))"

text \<open>The \<open>switch\<close> of \<open>tractor_update_model\<close>: the \<open>default\<close> arm takes every
  status that is neither cranking nor running.\<close>

definition update_switch :: "Tractor \<times> Horn \<Rightarrow> Tractor \<times> Horn" where
  "update_switch st =
     (if status (fst st) = ENGINE_CRANKING then update_cranking st
      else if status (fst st) = ENGINE_RUNNING then update_running st
      else update_default st)"

text \<open>\<open>tractor_update_model\<close>: the switch, then the horn manager, then the LED.
  The result is the new state and the LED; it is \<open>None\<close> where the horn manager
  reads outside the song.\<close>

definition tractor_update_model :: "Tractor \<times> Horn \<Rightarrow> ((Tractor \<times> Horn) \<times> bool) option" where
  "tractor_update_model st =
     (case update_switch st of (t1, h1) \<Rightarrow>
        (case audio_horn_manager h1 of
           None \<Rightarrow> None
         | Some h2 \<Rightarrow> Some ((t1, h2), is_led_on t1)))"

definition tractor_set_ignition_position :: "uint8_t \<Rightarrow> Tractor \<Rightarrow> Tractor" where
  "tractor_set_ignition_position position t = t\<lparr>ignition_position := position\<rparr>"

definition tractor_set_engine_speed_setpoint :: "uint8_t \<Rightarrow> Tractor \<Rightarrow> Tractor" where
  "tractor_set_engine_speed_setpoint setpoint t =
     (if status t \<noteq> ENGINE_RUNNING then t
      else
        (let setpoint1 = (if ENGINE_SPEED_MAX < setpoint then ENGINE_SPEED_MAX
                          else if setpoint < ENGINE_SPEED_IDLE then ENGINE_SPEED_IDLE
                          else setpoint)
         in t\<lparr>engine_speed_setpoint := setpoint1\<rparr>))"

definition tractor_play_dixie_song :: "Tractor \<times> Horn \<Rightarrow> Tractor \<times> Horn" where
  "tractor_play_dixie_song st =
     (case st of (t, h) \<Rightarrow>
        (if ignition_position t = IGNITION_OFF then (t, h)
         else (t\<lparr>horn_counter := 0\<rparr>, audio_play_horn_song SONG_DIXIE h)))"

section \<open>The button manager\<close>

definition BUTTON_ON :: uint8_t where
  "BUTTON_ON = 0"

definition BUTTON_START :: uint8_t where
  "BUTTON_START = 1"

definition BUTTON_HORN :: uint8_t where
  "BUTTON_HORN = 2"

definition BUTTON_COUNT :: uint8_t where
  "BUTTON_COUNT = 3"

text \<open>The width of \<open>int\<close> on the AVR target. \<open>1 << button\<close> is an \<open>int\<close>; C defines
  it only where the result fits, that is for a button id below \<open>INT_BITS - 1\<close>.\<close>

definition INT_BITS :: nat where
  "INT_BITS = 16"

text \<open>The macro \<open>BM(button)\<close>, \<open>1 << button\<close>, in the eight bits that every use
  keeps of it; no result where the shift is undefined.\<close>

definition BM :: "uint8_t \<Rightarrow> uint8_t option" where
  "BM button =
     (if unat button + 1 < INT_BITS then Some (push_bit (unat button) 1) else None)"

definition ADC_THRESHOLD_OFF :: uint8_t where
  "ADC_THRESHOLD_OFF = 23"

definition ADC_THRESHOLD_ON :: uint8_t where
  "ADC_THRESHOLD_ON = 63"

definition ADC_THRESHOLD_ON_HORN :: uint8_t where
  "ADC_THRESHOLD_ON_HORN = 99"

definition ADC_THRESHOLD_ON_START :: uint8_t where
  "ADC_THRESHOLD_ON_START = 186"

record Buttons =
  button_level :: uint8_t
  button_clicked :: uint8_t

definition buttons_init :: Buttons where
  "buttons_init = \<lparr>button_level = 0x00, button_clicked = 0x00\<rparr>"

text \<open>\<open>button_set_adc_value\<close>; the four masks it uses are those of the enum's
  constants.\<close>

definition button_set_adc_value :: "uint8_t \<Rightarrow> Buttons \<Rightarrow> Buttons option" where
  "button_set_adc_value adc_value b =
     (case (BM BUTTON_ON, BM BUTTON_START, BM BUTTON_HORN, BM BUTTON_COUNT) of
        (Some bm_on, Some bm_start, Some bm_horn, Some bm_count) \<Rightarrow>
          (let button_new_level =
                 (if adc_value \<le> ADC_THRESHOLD_OFF then 0x00
                  else if adc_value \<le> ADC_THRESHOLD_ON then bm_on
                  else if adc_value \<le> ADC_THRESHOLD_ON_HORN then bm_on OR bm_horn
                  else if adc_value \<le> ADC_THRESHOLD_ON_START then bm_on OR bm_start
                  else bm_on OR bm_start OR bm_horn)
           in Some \<lparr>button_level = button_new_level,
                    button_clicked = button_clicked b OR
                      ((NOT (button_level b) AND button_new_level) AND (bm_count - 1))\<rparr>)
      | _ \<Rightarrow> None)"

definition button_is_pressed :: "uint8_t \<Rightarrow> Buttons \<Rightarrow> bool option" where
  "button_is_pressed button b =
     (case BM button of
        None \<Rightarrow> None
      | Some mask_b \<Rightarrow> Some (button_level b AND mask_b \<noteq> 0))"

definition button_is_clicked :: "uint8_t \<Rightarrow> Buttons \<Rightarrow> (bool \<times> Buttons) option" where
  "button_is_clicked button b =
     (case BM button of
        None \<Rightarrow> None
      | Some mask_b \<Rightarrow>
          (let clicked = (button_clicked b AND mask_b \<noteq> 0)
           in Some (clicked, b\<lparr>button_clicked := button_clicked b AND NOT mask_b\<rparr>)))"

section \<open>Runs\<close>

text \<open>\<open>n\<close> calls of \<open>tractor_update_model\<close> in a row, the LED results dropped.\<close>

fun updates :: "nat \<Rightarrow> Tractor \<times> Horn \<Rightarrow> (Tractor \<times> Horn) option" where
  "updates 0 st = Some st"
| "updates (Suc n) st =
     (case updates n st of
        None \<Rightarrow> None
      | Some st1 \<Rightarrow> map_option fst (tractor_update_model st1))"

text \<open>\<open>n\<close> calls of \<open>audio_horn_manager\<close> in a row.\<close>

fun horn_ticks :: "nat \<Rightarrow> Horn \<Rightarrow> Horn option" where
  "horn_ticks 0 h = Some h"
| "horn_ticks (Suc n) h =
     (case horn_ticks n h of None \<Rightarrow> None | Some h1 \<Rightarrow> audio_horn_manager h1)"

section \<open>States used in the statements\<close>

text \<open>The state after power-up with the key turned to START.\<close>

definition start_held :: "Tractor \<times> Horn" where
  "start_held = (tractor_set_ignition_position IGNITION_START tractor_init, horn_init)"

text \<open>The horn states that the player's own operations produce: the note array has
  its \<open>MAX_SONG_SIZE\<close> entries, the song leaves two of them unused, the note index
  is at most one past the song's size, and at most the size while the song plays.\<close>

definition horn_ok :: "Horn \<Rightarrow> bool" where
  "horn_ok h =
     (length (note_Song (song h)) = MAX_SONG_SIZE \<and>
      unat (size_Song (song h)) + 2 \<le> MAX_SONG_SIZE \<and>
      unat (current_note h) \<le> unat (size_Song (song h)) + 1 \<and>
      (playing h \<longrightarrow> current_note h \<le> size_Song (song h)))"

text \<open>Two small wave tables to run the sample generator on, in place of the
  generated ones.\<close>

definition tracks_example :: Tracks where
  "tracks_example = \<lparr>ENGINE_RUNNING_track = [100, 200, 60, 20], ENGINE_RUNNING_SIZE = 4,
                      TRACTOR_HORN = [128, 200, 128, 56], TRACTOR_HORN_SIZE = 4\<rparr>"

text \<open>A running engine above the effects threshold, twelve ticks into a blink
  cycle.\<close>

definition cruising :: Tractor where
  "cruising = \<lparr>engine_speed = 20000, horn_counter = 0, status = ENGINE_RUNNING,
                 engine_speed_setpoint = 80, ignition_position = IGNITION_ON,
                 cranking_counter = 101, led_counter = 12\<rparr>"

text \<open>A running engine below the effects threshold.\<close>

definition idling :: Tractor where
  "idling = \<lparr>engine_speed = 16000, horn_counter = 7, status = ENGINE_RUNNING,
                 engine_speed_setpoint = 64, ignition_position = IGNITION_ON,
                 cranking_counter = 101, led_counter = 12\<rparr>"

text \<open>A running engine above the effects threshold whose key has just been turned
  to OFF.\<close>

definition switched_off :: Tractor where
  "switched_off = \<lparr>engine_speed = 20000, horn_counter = 7, status = ENGINE_RUNNING,
                    engine_speed_setpoint = 80, ignition_position = IGNITION_OFF,
                    cranking_counter = 101, led_counter = 12\<rparr>"

text \<open>A cranking engine whose counter stands at the minimum cranking time, with
  an ignition byte that is none of the three positions.\<close>

definition cranked :: Tractor where
  "cranked = \<lparr>engine_speed = 6385, horn_counter = 0, status = ENGINE_CRANKING,
               engine_speed_setpoint = 25, ignition_position = 5,
               cranking_counter = 100, led_counter = 0\<rparr>"

section \<open>Basic facts\<close>

lemma const_values [simp]:
  "CRANKING_MINIMUM_TIME = 100" "LED_CYCLE = 75" "HORN_CYCLE = 400"
  "HORN_NOTE_DURATION = 4" "HORN_PAUSE_DURATION = 1" "CRANKING_ENGINE_SPEED = 25"
  by (simp_all add: CRANKING_MINIMUM_TIME_def LED_CYCLE_def HORN_CYCLE_def
      HORN_NOTE_DURATION_def HORN_PAUSE_DURATION_def CRANKING_ENGINE_SPEED_def
      TRACTOR_STATUS_UPDATE_CYCLE_def ENGINE_SPEED_IDLE_def)

lemma ues_fields [simp]:
  "status (update_engine_speed a t) = status t"
  "horn_counter (update_engine_speed a t) = horn_counter t"
  "engine_speed_setpoint (update_engine_speed a t) = engine_speed_setpoint t"
  "ignition_position (update_engine_speed a t) = ignition_position t"
  "cranking_counter (update_engine_speed a t) = cranking_counter t"
  "led_counter (update_engine_speed a t) = led_counter t"
  by (simp_all add: update_engine_speed_def)

lemma low_bit_odd: "(w AND 0x01 \<noteq> 0) = odd (unat w)" for w :: uint8_t
proof -
  have "odd (unat w) = bit (unat w) 0" by (simp add: bit_0)
  also have "\<dots> = bit w 0" by (simp add: bit_unsigned_iff)
  also have "\<dots> = odd w" by (simp add: bit_0)
  finally show ?thesis by (simp add: and_one_eq odd_iff_mod_2_eq_one)
qed

subsection \<open>The horn manager never leaves the song array\<close>

lemma manager_idle: "\<not> playing h \<Longrightarrow> audio_horn_manager h = Some h"
  by (simp add: audio_horn_manager_def)

lemma horn_init_ok: "horn_ok horn_init"
  by (simp add: horn_ok_def horn_init_def MAX_SONG_SIZE_def)

lemma song_id_cases:
  assumes "sg < SONG_COUNT"
  shows "sg = 0 \<or> sg = 1 \<or> sg = 2"
proof -
  have "unat sg < 3" using assms by (simp add: SONG_COUNT_def word_less_nat_alt)
  then have "unat sg = 0 \<or> unat sg = 1 \<or> unat sg = 2" by arith
  then show ?thesis by (simp add: word_unat_eq_iff)
qed

lemma play_ok: "horn_ok h \<Longrightarrow> horn_ok (audio_play_horn_song sg h)"
proof (cases "sg < SONG_COUNT")
  case True
  assume "horn_ok h"
  from song_id_cases [OF True] True show ?thesis
    by (auto simp: audio_play_horn_song_def horn_ok_def SONG_LIBRARY_def SONG_def
        MAX_SONG_SIZE_def)
next
  case False
  assume "horn_ok h"
  with False show ?thesis by (simp add: audio_play_horn_song_def)
qed

lemma manager_ok:
  assumes "horn_ok h"
  shows "\<exists>h'. audio_horn_manager h = Some h' \<and> horn_ok h'"
proof (cases "playing h")
  case False
  with assms show ?thesis by (simp add: manager_idle)
next
  case True
  with assms have le: "unat (current_note h) \<le> unat (size_Song (song h))"
    and sz: "unat (size_Song (song h)) + 2 \<le> MAX_SONG_SIZE"
    and len: "length (note_Song (song h)) = MAX_SONG_SIZE"
    by (simp_all add: horn_ok_def word_le_nat_alt)
  have "unat (current_note h + 1) \<le> unat (current_note h) + 1"
    by (simp add: unat_word_ariths)
  with le sz have "unat (current_note h + 1) < MAX_SONG_SIZE"
      "unat (current_note h) < MAX_SONG_SIZE"
      "unat (current_note h + 1) \<le> Suc (unat (size_Song (song h)))"
    by simp_all
  with True assms len show ?thesis
    by (auto simp: audio_horn_manager_def horn_advance_def Let_def horn_ok_def not_less)
qed

lemma update_branch_ok:
  assumes "horn_ok h"
  shows "horn_ok (snd (update_default (t, h)))" "horn_ok (snd (update_cranking (t, h)))"
    "horn_ok (snd (update_running (t, h)))"
  using assms
  by (auto simp: update_default_def update_cranking_def update_running_def horn_timer_def
      Let_def play_ok split: prod.splits if_splits)

lemma switch_ok:
  assumes "horn_ok h"
  shows "horn_ok (snd (update_switch (t, h)))"
  using update_branch_ok [OF assms, of t] by (simp add: update_switch_def)

lemma update_total:
  assumes "horn_ok h"
  shows "\<exists>t' h' led. tractor_update_model (t, h) = Some ((t', h'), led) \<and> horn_ok h'"
proof -
  obtain t1 h1 where sw: "update_switch (t, h) = (t1, h1)"
    by (cases "update_switch (t, h)")
  with switch_ok [OF assms, of t] have "horn_ok h1" by simp
  from manager_ok [OF this] obtain h2 where "audio_horn_manager h1 = Some h2" "horn_ok h2"
    by blast
  with sw show ?thesis by (simp add: tractor_update_model_def)
qed

lemma update_led:
  assumes "tractor_update_model (t, h) = Some ((t', h'), led)"
  shows "led = is_led_on t'"
  using assms
  by (auto simp: tractor_update_model_def Let_def split: prod.splits option.splits)

subsection \<open>Single steps of the state machine, horn silent\<close>

lemma off_to_cranking:
  assumes "status t = ENGINE_OFF" "ignition_position t = IGNITION_START" "\<not> playing h"
  shows "\<exists>t'. map_option fst (tractor_update_model (t, h)) = Some (t', h) \<and>
     status t' = ENGINE_CRANKING \<and> cranking_counter t' = 0 \<and>
     ignition_position t' = IGNITION_START"
  using assms
  by (simp add: tractor_update_model_def update_switch_def update_default_def manager_idle
       ENGINE_OFF_def ENGINE_CRANKING_def ENGINE_RUNNING_def)

lemma cranking_goes_on:
  assumes "status t = ENGINE_CRANKING" "ignition_position t = IGNITION_START" "\<not> playing h"
     "unat (cranking_counter t) < 100"
  shows "\<exists>t'. map_option fst (tractor_update_model (t, h)) = Some (t', h) \<and>
     status t' = ENGINE_CRANKING \<and> cranking_counter t' = cranking_counter t + 1 \<and>
     ignition_position t' = IGNITION_START"
proof -
  have "unat (cranking_counter t + 1) = unat (cranking_counter t) + 1"
    using assms(4) by (simp add: unat_word_ariths)
  then have "\<not> (100 < cranking_counter t + 1)"
    using assms(4) by (simp add: word_less_nat_alt)
  then show ?thesis
    using assms
    by (simp add: tractor_update_model_def update_switch_def update_cranking_def manager_idle
       Let_def ENGINE_OFF_def ENGINE_CRANKING_def ENGINE_RUNNING_def)
qed

lemma cranking_done:
  assumes "status t = ENGINE_CRANKING" "\<not> playing h" "cranking_counter t = 100"
  shows "\<exists>t'. map_option fst (tractor_update_model (t, h)) = Some (t', h) \<and>
     status t' = ENGINE_RUNNING \<and> engine_speed_setpoint t' = ENGINE_SPEED_IDLE \<and>
     horn_counter t' = 0 \<and> led_counter t' = LED_CYCLE \<and> cranking_counter t' = 101 \<and>
     ignition_position t' = ignition_position t"
  using assms
  by (simp add: tractor_update_model_def update_switch_def update_cranking_def manager_idle
       Let_def ENGINE_OFF_def ENGINE_CRANKING_def ENGINE_RUNNING_def)

lemma held_cranking:
  "n \<le> 100 \<Longrightarrow> \<exists>t. updates (Suc n) start_held = Some (t, horn_init) \<and>
     status t = ENGINE_CRANKING \<and> cranking_counter t = of_nat n \<and>
     ignition_position t = IGNITION_START"
proof (induction n)
  case 0
  have "\<exists>t'. map_option fst (tractor_update_model start_held) = Some (t', horn_init) \<and>
     status t' = ENGINE_CRANKING \<and> cranking_counter t' = 0 \<and>
     ignition_position t' = IGNITION_START"
    unfolding start_held_def
    by (rule off_to_cranking)
       (simp_all add: tractor_set_ignition_position_def tractor_init_def horn_init_def)
  then show ?case by simp
next
  case (Suc n)
  then obtain t where t: "updates (Suc n) start_held = Some (t, horn_init)"
     "status t = ENGINE_CRANKING" "cranking_counter t = of_nat n"
     "ignition_position t = IGNITION_START" by auto
  have "unat (cranking_counter t) < 100"
    using Suc.prems t(3) by (simp add: unat_of_nat)
  from cranking_goes_on [OF t(2) t(4) _ this, of horn_init] t(3)
  obtain t' where "map_option fst (tractor_update_model (t, horn_init)) = Some (t', horn_init)"
     "status t' = ENGINE_CRANKING" "cranking_counter t' = of_nat (Suc n)"
     "ignition_position t' = IGNITION_START"
    by (auto simp: horn_init_def)
  then show ?case using t(1) by auto
qed

section \<open>Starting the engine\<close>

text \<open>C1. From the power-up state (status OFF) with the ignition set to START and
  \<open>tractor_update_model\<close> called once per tick: after each of the first 101 calls
  the status is CRANKING, the cranking counter being 0 after the first call and
  one more after each further call; the 102nd call finds the counter at
  \<open>CRANKING_MINIMUM_TIME\<close> = 100 = 4000 / 40, raises it to 101, which exceeds the
  minimum, and leaves the status RUNNING, the setpoint at \<open>ENGINE_SPEED_IDLE\<close> = 64,
  the horn counter at 0 and the LED counter at its reset value \<open>LED_CYCLE\<close>, from
  which the next running tick wraps it to 0.\<close>

theorem held_start_cranks_then_runs:
  "CRANKING_MINIMUM_TIME = 100 \<and> ENGINE_SPEED_IDLE = 64 \<and>
   status (fst start_held) = ENGINE_OFF \<and>
   (\<forall>n. 1 \<le> n \<and> n \<le> 101 \<longrightarrow>
      (\<exists>t h. updates n start_held = Some (t, h) \<and> status t = ENGINE_CRANKING \<and>
             cranking_counter t = of_nat (n - 1))) \<and>
   (\<exists>t h. updates 102 start_held = Some (t, h) \<and> status t = ENGINE_RUNNING \<and>
          cranking_counter t = CRANKING_MINIMUM_TIME + 1 \<and>
          engine_speed_setpoint t = ENGINE_SPEED_IDLE \<and>
          horn_counter t = 0 \<and> led_counter t = LED_CYCLE)"
proof -
  have a: "\<exists>t h. updates n start_held = Some (t, h) \<and> status t = ENGINE_CRANKING \<and>
             cranking_counter t = of_nat (n - 1)" if "1 \<le> n \<and> n \<le> 101" for n
  proof -
    from that obtain m where "n = Suc m" "m \<le> 100" by (cases n) auto
    with held_cranking [of m] show ?thesis by auto
  qed
  from held_cranking [of 100]
  obtain t where t: "updates 101 start_held = Some (t, horn_init)"
     "status t = ENGINE_CRANKING" "cranking_counter t = 100" by auto
  from cranking_done [OF t(2) _ t(3), of horn_init]
  obtain t' where t': "map_option fst (tractor_update_model (t, horn_init)) = Some (t', horn_init)"
     "status t' = ENGINE_RUNNING" "engine_speed_setpoint t' = ENGINE_SPEED_IDLE"
     "horn_counter t' = 0" "led_counter t' = LED_CYCLE" "cranking_counter t' = 101"
    by (auto simp: horn_init_def)
  have "updates 102 start_held = map_option fst (tractor_update_model (t, horn_init))"
    using t(1) updates.simps(2) [of 101 start_held] by simp
  with t' have b: "\<exists>t h. updates 102 start_held = Some (t, h) \<and> status t = ENGINE_RUNNING \<and>
          cranking_counter t = CRANKING_MINIMUM_TIME + 1 \<and>
          engine_speed_setpoint t = ENGINE_SPEED_IDLE \<and>
          horn_counter t = 0 \<and> led_counter t = LED_CYCLE"
    by auto
  have c: "status (fst start_held) = ENGINE_OFF"
    by (simp add: start_held_def tractor_set_ignition_position_def tractor_init_def)
  from a b c show ?thesis by (simp add: ENGINE_SPEED_IDLE_def)
qed

theorem held_start_cranks_then_runs_witness:
  "(1::nat) \<le> 3 \<and> (3::nat) \<le> 101 \<and>
     (\<exists>t h. updates 3 start_held = Some (t, h) \<and> status t = ENGINE_CRANKING \<and>
             cranking_counter t = 2)"
proof -
  have "1 \<le> (3::nat) \<and> (3::nat) \<le> 101" by simp
  with held_start_cranks_then_runs
  have "\<exists>t h. updates 3 start_held = Some (t, h) \<and> status t = ENGINE_CRANKING \<and>
             cranking_counter t = of_nat (3 - 1)"
    by blast
  then show ?thesis by simp
qed

section \<open>Clamping of the speed setpoint\<close>

text \<open>C3. While the engine status is RUNNING, \<open>tractor_set_engine_speed_setpoint\<close>
  changes the setpoint field only, and stores the argument clamped into
  [\<open>ENGINE_SPEED_IDLE\<close> = 64, \<open>ENGINE_SPEED_MAX\<close> = 168]: a larger argument is stored
  as 168, a smaller one as 64, one inside the range as it is. In every other status
  the call returns the state it was given.\<close>

theorem set_engine_speed_setpoint_clamps:
  "ENGINE_SPEED_IDLE = 64 \<and> ENGINE_SPEED_MAX = 168 \<and>
   (status t = ENGINE_RUNNING \<longrightarrow>
      (\<exists>v. tractor_set_engine_speed_setpoint sp t = t\<lparr>engine_speed_setpoint := v\<rparr> \<and>
           ENGINE_SPEED_IDLE \<le> v \<and> v \<le> ENGINE_SPEED_MAX \<and>
           (ENGINE_SPEED_MAX < sp \<longrightarrow> v = ENGINE_SPEED_MAX) \<and>
           (sp < ENGINE_SPEED_IDLE \<longrightarrow> v = ENGINE_SPEED_IDLE) \<and>
           (ENGINE_SPEED_IDLE \<le> sp \<and> sp \<le> ENGINE_SPEED_MAX \<longrightarrow> v = sp))) \<and>
   (status t \<noteq> ENGINE_RUNNING \<longrightarrow> tractor_set_engine_speed_setpoint sp t = t)"
  by (auto simp: tractor_set_engine_speed_setpoint_def ENGINE_SPEED_IDLE_def
        ENGINE_SPEED_MAX_def Let_def word_less_nat_alt word_le_nat_alt)

theorem set_engine_speed_setpoint_clamps_witness:
  "status (tractor_init\<lparr>status := ENGINE_RUNNING\<rparr>) = ENGINE_RUNNING \<and>
   ENGINE_SPEED_MAX < 200 \<and>
   tractor_set_engine_speed_setpoint 200 (tractor_init\<lparr>status := ENGINE_RUNNING\<rparr>) =
     tractor_init\<lparr>status := ENGINE_RUNNING, engine_speed_setpoint := 168\<rparr> \<and>
   10 < ENGINE_SPEED_IDLE \<and>
   tractor_set_engine_speed_setpoint 10 (tractor_init\<lparr>status := ENGINE_RUNNING\<rparr>) =
     tractor_init\<lparr>status := ENGINE_RUNNING, engine_speed_setpoint := 64\<rparr> \<and>
   ENGINE_SPEED_IDLE \<le> 100 \<and> 100 \<le> ENGINE_SPEED_MAX \<and>
   tractor_set_engine_speed_setpoint 100 (tractor_init\<lparr>status := ENGINE_RUNNING\<rparr>) =
     tractor_init\<lparr>status := ENGINE_RUNNING, engine_speed_setpoint := 100\<rparr> \<and>
   status tractor_init \<noteq> ENGINE_RUNNING \<and>
   tractor_set_engine_speed_setpoint 100 tractor_init = tractor_init"
proof -
  have a: "status (tractor_init\<lparr>status := ENGINE_RUNNING\<rparr>) = ENGINE_RUNNING"
    and b: "status tractor_init \<noteq> ENGINE_RUNNING"
    and c: "ENGINE_SPEED_MAX < 200" "10 < ENGINE_SPEED_IDLE"
       "ENGINE_SPEED_IDLE \<le> 100 \<and> 100 \<le> ENGINE_SPEED_MAX"
    by (simp_all add: tractor_init_def ENGINE_OFF_def ENGINE_RUNNING_def
        ENGINE_SPEED_MAX_def ENGINE_SPEED_IDLE_def)
  from set_engine_speed_setpoint_clamps [of "tractor_init\<lparr>status := ENGINE_RUNNING\<rparr>" 200] a
  obtain v where "tractor_set_engine_speed_setpoint 200 (tractor_init\<lparr>status := ENGINE_RUNNING\<rparr>) =
     tractor_init\<lparr>status := ENGINE_RUNNING, engine_speed_setpoint := v\<rparr>"
    "ENGINE_SPEED_MAX < 200 \<longrightarrow> v = ENGINE_SPEED_MAX"
    by blast
  with c(1)
  have 1: "tractor_set_engine_speed_setpoint 200 (tractor_init\<lparr>status := ENGINE_RUNNING\<rparr>) =
     tractor_init\<lparr>status := ENGINE_RUNNING, engine_speed_setpoint := ENGINE_SPEED_MAX\<rparr>"
    by simp
  from set_engine_speed_setpoint_clamps [of "tractor_init\<lparr>status := ENGINE_RUNNING\<rparr>" 10] a
  obtain v where "tractor_set_engine_speed_setpoint 10 (tractor_init\<lparr>status := ENGINE_RUNNING\<rparr>) =
     tractor_init\<lparr>status := ENGINE_RUNNING, engine_speed_setpoint := v\<rparr>"
    "10 < ENGINE_SPEED_IDLE \<longrightarrow> v = ENGINE_SPEED_IDLE"
    by blast
  with c(2)
  have 2: "tractor_set_engine_speed_setpoint 10 (tractor_init\<lparr>status := ENGINE_RUNNING\<rparr>) =
     tractor_init\<lparr>status := ENGINE_RUNNING, engine_speed_setpoint := ENGINE_SPEED_IDLE\<rparr>"
    by simp
  from set_engine_speed_setpoint_clamps [of "tractor_init\<lparr>status := ENGINE_RUNNING\<rparr>" 100] a
  obtain v where "tractor_set_engine_speed_setpoint 100 (tractor_init\<lparr>status := ENGINE_RUNNING\<rparr>) =
     tractor_init\<lparr>status := ENGINE_RUNNING, engine_speed_setpoint := v\<rparr>"
    "ENGINE_SPEED_IDLE \<le> 100 \<and> 100 \<le> ENGINE_SPEED_MAX \<longrightarrow> v = 100"
    by blast
  with c(3)
  have 3: "tractor_set_engine_speed_setpoint 100 (tractor_init\<lparr>status := ENGINE_RUNNING\<rparr>) =
     tractor_init\<lparr>status := ENGINE_RUNNING, engine_speed_setpoint := 100\<rparr>"
    by simp
  have 4: "tractor_set_engine_speed_setpoint 100 tractor_init = tractor_init"
    using set_engine_speed_setpoint_clamps [of tractor_init 100] b by blast
  from a b c 1 2 3 4 show ?thesis
    by (simp add: ENGINE_SPEED_MAX_def ENGINE_SPEED_IDLE_def)
qed

section \<open>The sample generator with the engine stopped\<close>

lemma mix_silence: "mix 128 s = s"
proof -
  have "uint s < 256" using uint_bounded [of s] by simp
  then show ?thesis by (simp add: mix_def Let_def)
qed

text \<open>C2, as the code has it. With \<open>engine_speed = 0\<close> the engine index is reset to
  zero and the engine track contributes the silence level 128, so the sample
  returned is the sample of the horn track: it is 128 whenever no song is playing
  or the current note is a rest (and then the horn index is reset as well), and it
  is the horn table's sample while a note sounds.\<close>

theorem next_sample_engine_stopped:
  "audio_get_next_sample tr 0 (si, h) =
     map_option (\<lambda>(horn_sample, x). (horn_sample, \<lparr>engine = 0, horn = x\<rparr>))
       (horn_block tr h (horn si)) \<and>
   (\<not> (playing h \<and> index_increment h \<noteq> 0) \<longrightarrow>
      audio_get_next_sample tr 0 (si, h) = Some (128, \<lparr>engine = 0, horn = 0\<rparr>))"
  by (auto simp: audio_get_next_sample_def engine_block_def mix_silence horn_block_def
      split: option.splits)

theorem next_sample_engine_stopped_witness:
  "\<not> (playing horn_init \<and> index_increment horn_init \<noteq> 0) \<and>
   audio_get_next_sample tracks_example 0 (sample_index_init, horn_init) =
     Some (128, \<lparr>engine = 0, horn = 0\<rparr>)"
proof -
  have silent: "\<not> (playing horn_init \<and> index_increment horn_init \<noteq> 0)"
    by (simp add: horn_init_def)
  with next_sample_engine_stopped [of tracks_example sample_index_init horn_init]
  show ?thesis by blast
qed

text \<open>C2, as stated, fails while a note sounds: with the single honk just started
  and the engine stopped, the first sample is the horn table's entry 200, not 128.\<close>

theorem next_sample_engine_stopped_horn_sounding:
  "audio_get_next_sample tracks_example 0
     (sample_index_init, audio_play_horn_song SONG_SINGLE_HONK horn_init) =
     Some (200, \<lparr>engine = 0, horn = 64\<rparr>) \<and> (200 :: uint8_t) \<noteq> 128"
  by (simp add: audio_get_next_sample_def engine_block_def horn_block_def mix_def
      audio_play_horn_song_def SONG_SINGLE_HONK_def SONG_COUNT_def SONG_LIBRARY_def SONG_def
      sample_index_init_def tracks_example_def pick_sample_def read_byte_def horn_init_def
      MAX_SONG_SIZE_def Let_def)

section \<open>The engine track\<close>

text \<open>With a nonzero engine speed the engine index advances by \<open>engine_speed >> 2\<close>
  and wraps modulo \<open>ENGINE_RUNNING_SIZE << 4\<close>, for a table of at least four
  entries whose scaled size fits the 16-bit index.\<close>

lemma engine_phase_advances:
  assumes "sp \<noteq> 0" "engine_block tr sp e = Some (s, e1)"
    and "unat e < ENGINE_RUNNING_SIZE tr * 16" "63 < ENGINE_RUNNING_SIZE tr * 16"
    and "ENGINE_RUNNING_SIZE tr * 16 + 63 < 65536"
  shows "unat e1 = (unat e + unat (drop_bit 2 sp)) mod (ENGINE_RUNNING_SIZE tr * 16)"
proof -
  define n where "n = ENGINE_RUNNING_SIZE tr * 16"
  define d where "d = unat (drop_bit 2 sp)"
  have "unat sp < 256" using unsigned_less [of sp, where ?'a = nat] by simp
  then have d: "d < 64" by (simp add: d_def unat_drop_bit_eq drop_bit_eq_div unat_div)
  have du: "unat (ucast (drop_bit 2 sp) :: uint16_t) = d"
    using d by (simp add: d_def unsigned_ucast_eq take_bit_eq_mod)
  have x: "unat (e + ucast (drop_bit 2 sp)) = unat e + d"
    using assms(3,5) d du by (simp add: unat_word_ariths n_def)
  have "n < 65536" using assms(5) by (simp add: n_def)
  then have nn: "unat (of_nat n :: uint16_t) = n"
    by (simp add: unat_of_nat)
  from assms(1,2) have e1: "e1 = (if n \<le> unat (e + ucast (drop_bit 2 sp))
       then e + ucast (drop_bit 2 sp) - of_nat n else e + ucast (drop_bit 2 sp))"
    by (auto simp: engine_block_def Let_def n_def)
  show ?thesis
  proof (cases "n \<le> unat e + d")
    case True
    with e1 x nn have "unat e1 = unat e + d - n"
      by (simp add: unat_sub_if_size)
    moreover from True assms(3,4) d have "(unat e + d) mod n = unat e + d - n"
      unfolding n_def [symmetric] by (simp add: mod_if)
    ultimately show ?thesis by (simp add: n_def d_def)
  next
    case False
    with e1 x have "unat e1 = unat e + d" by simp
    with False show ?thesis by (simp add: n_def d_def)
  qed
qed

text \<open>The sub-sample offset of the engine track is the low four bits of the index,
  so the first test of the three-way choice, \<open>offset < 16\<close>, always holds: the
  engine sample is the table entry at the index, whatever the offset.\<close>

lemma engine_never_interpolates:
  assumes "sp \<noteq> 0" "engine_block tr sp e = Some (s, e1)"
  shows "read_byte (ENGINE_RUNNING_track tr) (unat (drop_bit 4 e1)) = Some s"
proof -
  have "(ucast (w AND 0x000F :: uint16_t) :: uint8_t) < 16" for w
  proof -
    have "unat (w AND 0x000F) \<le> unat (0x000F :: uint16_t)"
      by (rule word_and_le1 [THEN word_le_nat_alt [THEN iffD1]])
    then have "unat (ucast (w AND 0x000F :: uint16_t) :: uint8_t) < 16"
      by (simp add: unsigned_ucast_eq take_bit_eq_mod)
    then show ?thesis by (simp add: word_less_nat_alt)
  qed
  then show ?thesis using assms
    by (auto simp: engine_block_def pick_sample_def Let_def)
qed

text \<open>C5 on the code. From index 0, an engine speed of 60 advances the index by
  \<open>60 >> 2 = 15\<close>: table position 0, offset 15 of 16, the last part of the
  interval, where the claim selects the entry above, 200; the code returns the
  entry below, 100. An engine speed of 32 gives offset 8, the middle of the
  interval, where the claim selects the average \<open>(100 >> 1) + (200 >> 1) = 150\<close>;
  the code returns 100 again.\<close>

theorem engine_sample_not_interpolated:
  "audio_get_next_sample tracks_example 60 (sample_index_init, horn_init) =
     Some (100, \<lparr>engine = 15, horn = 0\<rparr>) \<and>
   audio_get_next_sample tracks_example 32 (sample_index_init, horn_init) =
     Some (100, \<lparr>engine = 8, horn = 0\<rparr>) \<and>
   ENGINE_RUNNING_track tracks_example ! 0 = 100 \<and>
   ENGINE_RUNNING_track tracks_example ! 1 = 200"
  by (simp add: audio_get_next_sample_def engine_block_def horn_block_def mix_def
      sample_index_init_def tracks_example_def pick_sample_def read_byte_def horn_init_def
      Let_def)

section \<open>Note durations of the horn manager\<close>

text \<open>C6, as the code has it. While a song is playing, the duration of the
  current note is \<open>HORN_PAUSE_DURATION\<close> for a rest (increment 0) and
  \<open>HORN_NOTE_DURATION\<close> for a sounding note, and the rest is the shorter of the
  two (1 tick against 4). Each call increments the note counter; when the
  incremented counter reaches the duration, the counter is reset to 0 and the
  note index moves to the next note, otherwise the index stays. The manager
  returns whenever the next note lies inside the note array.\<close>

theorem horn_manager_note_timing:
  assumes "playing h" and "unat (current_note h) + 1 < length (note_Song (song h))"
  shows "HORN_PAUSE_DURATION < HORN_NOTE_DURATION \<and>
    horn_duration (index_increment h) =
      (if index_increment h = 0 then HORN_PAUSE_DURATION else HORN_NOTE_DURATION) \<and>
    (\<exists>h'. audio_horn_manager h = Some h' \<and>
       (if horn_duration (index_increment h) \<le> note_counter h + 1
        then note_counter h' = 0 \<and> current_note h' = current_note h + 1
        else note_counter h' = note_counter h + 1 \<and> current_note h' = current_note h))"
proof -
  have "unat (current_note h + 1) \<le> unat (current_note h) + 1"
    by (simp add: unat_word_ariths)
  with assms show ?thesis
    by (auto simp: audio_horn_manager_def horn_advance_def horn_duration_def Let_def)
qed

theorem horn_manager_note_timing_witness:
  "playing (audio_play_horn_song SONG_SINGLE_HONK horn_init) \<and>
   unat (current_note (audio_play_horn_song SONG_SINGLE_HONK horn_init)) + 1
     < length (note_Song (song (audio_play_horn_song SONG_SINGLE_HONK horn_init))) \<and>
   (\<exists>h'. audio_horn_manager (audio_play_horn_song SONG_SINGLE_HONK horn_init) = Some h' \<and>
         note_counter h' = 1 \<and> current_note h' = 0)"
proof -
  have a: "playing (audio_play_horn_song SONG_SINGLE_HONK horn_init)"
    and b: "unat (current_note (audio_play_horn_song SONG_SINGLE_HONK horn_init)) + 1
     < length (note_Song (song (audio_play_horn_song SONG_SINGLE_HONK horn_init)))"
    and c: "index_increment (audio_play_horn_song SONG_SINGLE_HONK horn_init) = 64"
      "note_counter (audio_play_horn_song SONG_SINGLE_HONK horn_init) = 0"
      "current_note (audio_play_horn_song SONG_SINGLE_HONK horn_init) = 0"
    by (simp_all add: audio_play_horn_song_def SONG_SINGLE_HONK_def SONG_COUNT_def
        SONG_LIBRARY_def SONG_def MAX_SONG_SIZE_def)
  from horn_manager_note_timing [OF a b] a b c show ?thesis
    by (auto simp: horn_duration_def word_le_nat_alt)
qed

text \<open>C6, as stated, fails: the duration of a rest is 1 tick and that of a sounding
  note is 4 ticks, so the rest is not the longer one.\<close>

theorem rest_shorter_than_note:
  "\<not> (horn_duration 64 < horn_duration 0) \<and> horn_duration 0 = 1 \<and> horn_duration 64 = 4"
  by (simp add: horn_duration_def)

section \<open>The note index at the end of a song\<close>

text \<open>C8 on the code. The single honk has size 3. Twelve calls of the manager after
  its start the note index is 3, the size, and the song is still playing; the
  thirteenth call moves the index to 4, past the size, and only then clears
  \<open>playing\<close>.\<close>

theorem single_honk_runs_past_size:
  "map_option (\<lambda>h. (current_note h, size_Song (song h), playing h))
     (horn_ticks 12 (audio_play_horn_song SONG_SINGLE_HONK horn_init)) = Some (3, 3, True) \<and>
   map_option (\<lambda>h. (current_note h, size_Song (song h), playing h))
     (horn_ticks 13 (audio_play_horn_song SONG_SINGLE_HONK horn_init)) = Some (4, 3, False)"
  by code_simp

section \<open>The LED output\<close>

lemma led_on_iff:
  "is_led_on t = (ENGINE_SPEED_MIN \<le> tractor_get_engine_speed t \<and>
                  odd (unat (led_counter t)) \<and> led_counter t < 12)"
  using low_bit_odd [of "led_counter t"] by (simp add: is_led_on_def)

lemma six_flashes:
  assumes "ENGINE_SPEED_MIN \<le> tractor_get_engine_speed t"
  shows "filter (\<lambda>c. is_led_on (t\<lparr>led_counter := of_nat c\<rparr>)) [0..<Suc (unat LED_CYCLE)] =
      [1, 3, 5, 7, 9, 11]"
proof -
  have s: "tractor_get_engine_speed (t\<lparr>led_counter := c\<rparr>) = tractor_get_engine_speed t" for c
    by (simp add: tractor_get_engine_speed_def)
  show ?thesis using assms
    by (simp add: is_led_on_def s upt_rec [of _ "numeral n" for n] upt_rec [of _ "Suc n" for n])
qed

lemma no_flashes:
  assumes "\<not> ENGINE_SPEED_MIN \<le> tractor_get_engine_speed t"
  shows "filter (\<lambda>c. is_led_on (t\<lparr>led_counter := of_nat c\<rparr>)) [0..<Suc (unat LED_CYCLE)] = []"
proof -
  have s: "tractor_get_engine_speed (t\<lparr>led_counter := c\<rparr>) = tractor_get_engine_speed t" for c
    by (simp add: tractor_get_engine_speed_def)
  show ?thesis using assms
    by (simp add: is_led_on_def s filter_empty_conv)
qed

lemma cruising_step:
  "tractor_update_model (cruising, horn_init) =
     Some ((cruising\<lparr>engine_speed := 20007, horn_counter := 1, led_counter := 13\<rparr>,
            horn_init), False)"
  "tractor_get_engine_speed
     (cruising\<lparr>engine_speed := 20007, horn_counter := 1, led_counter := 13\<rparr>) = 78"
  by (simp_all add: tractor_update_model_def update_switch_def update_running_def
      horn_timer_def cruising_def
      update_engine_speed_def tractor_get_engine_speed_def is_led_on_def horn_init_def
      audio_horn_manager_def ENGINE_RUNNING_def ENGINE_CRANKING_def IGNITION_ON_def
      IGNITION_OFF_def ENGINE_SPEED_MIN_def Let_def word_le_nat_alt)

text \<open>C4, as the code has it. \<open>tractor_update_model\<close> returns true exactly when,
  in the state it leaves, the public engine speed is at least \<open>ENGINE_SPEED_MIN\<close>
  = 68, the LED counter is odd and the LED counter is below 12. The counter runs
  from 0 to \<open>LED_CYCLE\<close> = 75, so with the speed above the threshold the LED is on
  at the six counter values 1, 3, 5, 7, 9 and 11 of a cycle, and at none with the
  speed below it.\<close>

theorem update_led_output:
  assumes "horn_ok h"
  shows "\<exists>t' h'. tractor_update_model (t, h) =
      Some ((t', h'), ENGINE_SPEED_MIN \<le> tractor_get_engine_speed t' \<and>
                      odd (unat (led_counter t')) \<and> led_counter t' < 12) \<and>
      filter (\<lambda>c. is_led_on (t'\<lparr>led_counter := of_nat c\<rparr>)) [0..<Suc (unat LED_CYCLE)] =
        (if ENGINE_SPEED_MIN \<le> tractor_get_engine_speed t' then [1, 3, 5, 7, 9, 11] else [])"
proof -
  from update_total [OF assms, of t]
  obtain t' h' led where u: "tractor_update_model (t, h) = Some ((t', h'), led)" by blast
  from update_led [OF u] have "led = (ENGINE_SPEED_MIN \<le> tractor_get_engine_speed t' \<and>
                      odd (unat (led_counter t')) \<and> led_counter t' < 12)"
    by (simp add: led_on_iff)
  with u six_flashes [of t'] no_flashes [of t'] show ?thesis
    by (cases "ENGINE_SPEED_MIN \<le> tractor_get_engine_speed t'") auto
qed

theorem update_led_output_witness:
  "horn_ok horn_init \<and>
   (\<exists>t' h'. tractor_update_model (cruising, horn_init) = Some ((t', h'), False) \<and>
     tractor_get_engine_speed t' = 78 \<and> led_counter t' = 13 \<and>
     filter (\<lambda>c. is_led_on (t'\<lparr>led_counter := of_nat c\<rparr>)) [0..<Suc (unat LED_CYCLE)] =
       [1, 3, 5, 7, 9, 11])"
proof -
  from update_led_output [OF horn_init_ok, of cruising]
  obtain t' h' where u: "tractor_update_model (cruising, horn_init) =
      Some ((t', h'), ENGINE_SPEED_MIN \<le> tractor_get_engine_speed t' \<and>
                      odd (unat (led_counter t')) \<and> led_counter t' < 12)"
    and f: "filter (\<lambda>c. is_led_on (t'\<lparr>led_counter := of_nat c\<rparr>)) [0..<Suc (unat LED_CYCLE)] =
        (if ENGINE_SPEED_MIN \<le> tractor_get_engine_speed t' then [1, 3, 5, 7, 9, 11] else [])"
    by blast
  from u cruising_step(1)
  have t': "t' = cruising\<lparr>engine_speed := 20007, horn_counter := 1, led_counter := 13\<rparr>"
    by simp
  with cruising_step(2) have "tractor_get_engine_speed t' = 78" "led_counter t' = 13"
    by simp_all
  with u f cruising_step(1) horn_init_ok show ?thesis
    by (auto simp: ENGINE_SPEED_MIN_def)
qed

text \<open>C4, as stated, fails. One tick on from \<open>cruising\<close> the public speed is 78, the
  LED counter is 13, odd and in the first half of the cycle of 75, and the LED is
  off.\<close>

theorem led_off_at_thirteen:
  "tractor_update_model (cruising, horn_init) =
     Some ((cruising\<lparr>engine_speed := 20007, horn_counter := 1, led_counter := 13\<rparr>,
            horn_init), False) \<and>
   ENGINE_SPEED_MIN \<le> tractor_get_engine_speed
     (cruising\<lparr>engine_speed := 20007, horn_counter := 1, led_counter := 13\<rparr>) \<and>
   odd (unat (13 :: uint8_t)) \<and> 2 * unat (13 :: uint8_t) < unat LED_CYCLE"
  using cruising_step by (simp add: ENGINE_SPEED_MIN_def)


section \<open>Button clicks\<close>

lemma BM_enum:
  assumes "b \<le> BUTTON_COUNT"
  shows "BM b = Some (push_bit (unat b) 1)" "unat b < 8"
  using assms by (simp_all add: BM_def INT_BITS_def BUTTON_COUNT_def word_le_nat_alt)

lemma bit_mask_one: "bit (2 ^ n :: uint8_t) k \<longleftrightarrow> k = n \<and> n < 8"
  by (auto simp: bit_simps)

lemma and_mask_nonzero:
  "(w AND (2 ^ n :: uint8_t) \<noteq> 0) = (bit w n \<and> n < 8)"
proof
  assume "w AND 2 ^ n \<noteq> 0"
  then obtain k where "bit (w AND (2 ^ n :: uint8_t)) k"
    by (auto simp: bit_eq_iff [where ?'a = uint8_t])
  then show "bit w n \<and> n < 8"
    by (auto simp: bit_and_iff bit_mask_one)
next
  assume "bit w n \<and> n < 8"
  then have "bit (w AND (2 ^ n :: uint8_t)) n"
    by (simp add: bit_and_iff bit_mask_one)
  then show "w AND 2 ^ n \<noteq> 0" by auto
qed

lemma bit_7: "bit (7 :: uint8_t) k \<longleftrightarrow> k < 3"
proof -
  have "bit (mask 3 :: uint8_t) k \<longleftrightarrow> k < 3"
    by (auto simp: bit_mask_iff)
  moreover have "mask 3 = (7 :: uint8_t)"
    by (simp add: mask_eq_exp_minus_1)
  ultimately show ?thesis by (simp only:)
qed

lemma pressed_enum:
  assumes "b < BUTTON_COUNT"
  shows "button_is_pressed b s = Some (bit (button_level s) (unat b))"
proof -
  from assms have "b \<le> BUTTON_COUNT" by simp
  from BM_enum [OF this] show ?thesis
    by (simp add: button_is_pressed_def and_mask_nonzero)
qed

lemma clicked_enum:
  assumes "b < BUTTON_COUNT"
  shows "button_is_clicked b s =
     Some (bit (button_clicked s) (unat b),
           s\<lparr>button_clicked := button_clicked s AND NOT (2 ^ unat b)\<rparr>)"
proof -
  from assms have "b \<le> BUTTON_COUNT" by simp
  from BM_enum [OF this] show ?thesis
    by (simp add: button_is_clicked_def and_mask_nonzero Let_def)
qed

lemma bit_cleared:
  "bit (w AND NOT (2 ^ n :: uint8_t)) k = (\<not> (k = n \<and> n < 8) \<and> bit w k)"
  by (auto simp: bit_and_iff bit_not_iff bit_mask_one dest: bit_imp_le_length)

lemma set_adc_clicks:
  "\<exists>s1. button_set_adc_value v s = Some s1 \<and>
     button_clicked s1 = button_clicked s OR ((NOT (button_level s) AND button_level s1) AND 7)"
proof -
  have "BM BUTTON_ON = Some 1" "BM BUTTON_START = Some 2" "BM BUTTON_HORN = Some 4"
    "BM BUTTON_COUNT = Some 8"
    by (simp_all add: BM_def INT_BITS_def BUTTON_ON_def BUTTON_START_def BUTTON_HORN_def
        BUTTON_COUNT_def)
  then show ?thesis by (simp add: button_set_adc_value_def Let_def)
qed

text \<open>A button id from 15 on has no mask, and the read of its click no result.\<close>

lemma clicked_undefined: "15 \<le> unat c \<Longrightarrow> button_is_clicked c s = None"
  by (simp add: button_is_clicked_def BM_def INT_BITS_def)

text \<open>C9. For a button \<open>b\<close> of the enum, \<open>button_is_clicked b\<close> returns whether
  bit \<open>b\<close> of the pending clicks is set; it leaves the pressed levels as they are
  and clears bit \<open>b\<close> of the pending clicks and no other bit. So a second read
  right after the first returns false and changes nothing, and a read of any
  other button \<open>c\<close> of the enum does not change what the next read of \<open>b\<close>
  returns. \<open>button_is_pressed b\<close> returns bit \<open>b\<close> of the levels. After any sample
  given to \<open>button_set_adc_value\<close> the read of \<open>b\<close> returns true exactly when a
  click of \<open>b\<close> was pending before the sample or the sample took \<open>b\<close> from
  released to pressed: a rising edge is seen as a click, and a sample without a
  rising edge of \<open>b\<close> adds none.\<close>

theorem button_click_read_and_clear:
  assumes "b < BUTTON_COUNT"
  shows "(\<exists>s1. button_is_clicked b s = Some (bit (button_clicked s) (unat b), s1) \<and>
            button_level s1 = button_level s \<and>
            (\<forall>k. bit (button_clicked s1) k = (k \<noteq> unat b \<and> bit (button_clicked s) k)) \<and>
            button_is_clicked b s1 = Some (False, s1)) \<and>
         (\<forall>c. c < BUTTON_COUNT \<and> c \<noteq> b \<longrightarrow>
            (\<exists>r s2 s3. button_is_clicked c s = Some (r, s2) \<and>
               button_is_clicked b s2 = Some (bit (button_clicked s) (unat b), s3))) \<and>
         button_is_pressed b s = Some (bit (button_level s) (unat b)) \<and>
         (\<forall>v. \<exists>s4 s5. button_set_adc_value v s = Some s4 \<and>
            button_is_clicked b s4 =
              Some (bit (button_clicked s) (unat b) \<or>
                    (button_is_pressed b s = Some False \<and> button_is_pressed b s4 = Some True),
                    s5))"
proof -
  have b8: "unat b < 8" and b3: "unat b < 3"
    using assms by (simp_all add: BUTTON_COUNT_def word_less_nat_alt)
  define s1 where "s1 = s\<lparr>button_clicked := button_clicked s AND NOT (2 ^ unat b)\<rparr>"
  have r1: "button_is_clicked b s = Some (bit (button_clicked s) (unat b), s1)"
    by (simp add: clicked_enum [OF assms] s1_def)
  have l1: "button_level s1 = button_level s" by (simp add: s1_def)
  have c1: "bit (button_clicked s1) k = (k \<noteq> unat b \<and> bit (button_clicked s) k)" for k
    using b8 by (simp add: s1_def bit_cleared)
  have "button_clicked s1 AND NOT (2 ^ unat b) = button_clicked s1"
    by (simp add: s1_def and.assoc)
  then have r2: "button_is_clicked b s1 = Some (False, s1)"
    using c1 [of "unat b"] by (simp add: clicked_enum [OF assms])
  have other: "\<exists>r s2 s3. button_is_clicked c s = Some (r, s2) \<and>
               button_is_clicked b s2 = Some (bit (button_clicked s) (unat b), s3)"
    if "c < BUTTON_COUNT \<and> c \<noteq> b" for c
  proof -
    from that have c: "c < BUTTON_COUNT" and ne: "unat c \<noteq> unat b"
      by (simp_all add: word_unat_eq_iff)
    have "bit (button_clicked s AND NOT (2 ^ unat c)) (unat b) =
          bit (button_clicked s) (unat b)"
      using ne by (auto simp: bit_cleared)
    then show ?thesis
      by (simp add: clicked_enum [OF c] clicked_enum [OF assms])
  qed
  have p: "button_is_pressed b s = Some (bit (button_level s) (unat b))" for s
    by (rule pressed_enum [OF assms])
  have edge: "\<exists>s4 s5. button_set_adc_value v s = Some s4 \<and>
            button_is_clicked b s4 =
              Some (bit (button_clicked s) (unat b) \<or>
                    (button_is_pressed b s = Some False \<and> button_is_pressed b s4 = Some True),
                    s5)" for v
  proof -
    from set_adc_clicks [of v s] obtain s4 where s4: "button_set_adc_value v s = Some s4"
      "button_clicked s4 = button_clicked s OR ((NOT (button_level s) AND button_level s4) AND 7)"
      by blast
    have "bit (7 :: uint8_t) (unat b)" using b3 by (simp only: bit_7)
    with s4(2) b8 have "bit (button_clicked s4) (unat b) =
       (bit (button_clicked s) (unat b) \<or>
        (\<not> bit (button_level s) (unat b) \<and> bit (button_level s4) (unat b)))"
      by (simp only: bit_or_iff bit_and_iff bit_not_iff) simp
    with s4(1) show ?thesis
      by (simp add: clicked_enum [OF assms] p)
  qed
  from r1 l1 c1 r2 other p edge show ?thesis by blast
qed


theorem button_click_read_and_clear_witness:
  "BUTTON_HORN < BUTTON_COUNT \<and> BUTTON_ON < BUTTON_COUNT \<and> BUTTON_ON \<noteq> BUTTON_HORN \<and>
   button_is_pressed BUTTON_HORN buttons_init = Some False \<and>
   (\<exists>s1 s2 s3 s4.
      button_set_adc_value 70 buttons_init = Some s1 \<and>
      button_is_pressed BUTTON_HORN s1 = Some True \<and>
      button_is_clicked BUTTON_HORN s1 = Some (True, s2) \<and>
      button_is_clicked BUTTON_HORN s2 = Some (False, s2) \<and>
      button_set_adc_value 70 s2 = Some s3 \<and>
      button_is_clicked BUTTON_HORN s3 = Some (False, s4) \<and>
      (\<exists>r s5 s6. button_is_clicked BUTTON_ON s1 = Some (r, s5) \<and>
                 button_is_clicked BUTTON_HORN s5 = Some (True, s6)))"
proof -
  have a: "BUTTON_HORN < BUTTON_COUNT" and a': "BUTTON_ON < BUTTON_COUNT \<and> BUTTON_ON \<noteq> BUTTON_HORN"
    by (simp_all add: BUTTON_HORN_def BUTTON_ON_def BUTTON_COUNT_def)
  note rc = button_click_read_and_clear [OF a]
  have p0: "button_is_pressed BUTTON_HORN buttons_init = Some False"
    and c0: "\<not> bit (button_clicked buttons_init) (unat BUTTON_HORN)"
    by (simp_all add: button_is_pressed_def BM_def INT_BITS_def BUTTON_HORN_def buttons_init_def)
  from rc [of buttons_init, THEN conjunct2, THEN conjunct2, THEN conjunct2, rule_format, of 70]
  obtain s1 s2 where s1: "button_set_adc_value 70 buttons_init = Some s1"
    and r1: "button_is_clicked BUTTON_HORN s1 =
              Some (bit (button_clicked buttons_init) (unat BUTTON_HORN) \<or>
                    (button_is_pressed BUTTON_HORN buttons_init = Some False \<and>
                     button_is_pressed BUTTON_HORN s1 = Some True), s2)"
    by blast
  have "button_set_adc_value 70 buttons_init = Some \<lparr>button_level = 5, button_clicked = 5\<rparr>"
    by (simp add: button_set_adc_value_def BM_def INT_BITS_def BUTTON_ON_def BUTTON_START_def
        BUTTON_HORN_def BUTTON_COUNT_def ADC_THRESHOLD_OFF_def ADC_THRESHOLD_ON_def
        ADC_THRESHOLD_ON_HORN_def buttons_init_def)
  with s1 have l1: "button_level s1 = 5" by auto
  have "bit (5 :: uint8_t) (unat BUTTON_HORN)"
    by (simp add: BUTTON_HORN_def bit_iff_odd)
  with rc [of s1, THEN conjunct2, THEN conjunct2, THEN conjunct1] l1
  have p1: "button_is_pressed BUTTON_HORN s1 = Some True"
    by simp
  with r1 p0 have r1': "button_is_clicked BUTTON_HORN s1 = Some (True, s2)" by simp
  from rc [of s1, THEN conjunct1]
  obtain sa where sa0: "button_is_clicked BUTTON_HORN s1 =
       Some (bit (button_clicked s1) (unat BUTTON_HORN), sa) \<and>
     button_level sa = button_level s1 \<and>
     (\<forall>k. bit (button_clicked sa) k = (k \<noteq> unat BUTTON_HORN \<and> bit (button_clicked s1) k)) \<and>
     button_is_clicked BUTTON_HORN sa = Some (False, sa)"
    by (rule exE)
  note sa = sa0 [THEN conjunct1] sa0 [THEN conjunct2, THEN conjunct1]
    sa0 [THEN conjunct2, THEN conjunct2, THEN conjunct2]
  from sa(1) r1' have e: "sa = s2" and c1: "bit (button_clicked s1) (unat BUTTON_HORN)"
    by simp_all
  from sa(2,3) e have l2: "button_level s2 = button_level s1"
    and r2: "button_is_clicked BUTTON_HORN s2 = Some (False, s2)"
    by simp_all
  from rc [of s2, THEN conjunct1]
  obtain sb where sb0: "button_is_clicked BUTTON_HORN s2 =
       Some (bit (button_clicked s2) (unat BUTTON_HORN), sb) \<and>
     button_level sb = button_level s2 \<and>
     (\<forall>k. bit (button_clicked sb) k = (k \<noteq> unat BUTTON_HORN \<and> bit (button_clicked s2) k)) \<and>
     button_is_clicked BUTTON_HORN sb = Some (False, sb)"
    by (rule exE)
  from sb0 [THEN conjunct1]
  r2 have c2: "\<not> bit (button_clicked s2) (unat BUTTON_HORN)" by auto
  from rc [of s2, THEN conjunct2, THEN conjunct2, THEN conjunct1]
       rc [of s1, THEN conjunct2, THEN conjunct2, THEN conjunct1] l2 p1
  have p2: "button_is_pressed BUTTON_HORN s2 = Some True" by simp
  from rc [of s2, THEN conjunct2, THEN conjunct2, THEN conjunct2, rule_format, of 70]
  obtain s3 s4 where s3: "button_set_adc_value 70 s2 = Some s3"
    and r3: "button_is_clicked BUTTON_HORN s3 =
              Some (bit (button_clicked s2) (unat BUTTON_HORN) \<or>
                    (button_is_pressed BUTTON_HORN s2 = Some False \<and>
                     button_is_pressed BUTTON_HORN s3 = Some True), s4)"
    by blast
  from r3 c2 p2 have r3': "button_is_clicked BUTTON_HORN s3 = Some (False, s4)" by simp
  from rc [of s1, THEN conjunct2, THEN conjunct1, rule_format, OF a']
  obtain r s5 s6 where o: "button_is_clicked BUTTON_ON s1 = Some (r, s5)"
    "button_is_clicked BUTTON_HORN s5 = Some (bit (button_clicked s1) (unat BUTTON_HORN), s6)"
    by blast
  from o(2) c1 have "button_is_clicked BUTTON_HORN s5 = Some (True, s6)" by simp
  with o(1) have "\<exists>r s5 s6. button_is_clicked BUTTON_ON s1 = Some (r, s5) \<and>
                 button_is_clicked BUTTON_HORN s5 = Some (True, s6)"
    by blast
  with s1 p1 r1' r2 s3 r3' have "\<exists>s1 s2 s3 s4.
      button_set_adc_value 70 buttons_init = Some s1 \<and>
      button_is_pressed BUTTON_HORN s1 = Some True \<and>
      button_is_clicked BUTTON_HORN s1 = Some (True, s2) \<and>
      button_is_clicked BUTTON_HORN s2 = Some (False, s2) \<and>
      button_set_adc_value 70 s2 = Some s3 \<and>
      button_is_clicked BUTTON_HORN s3 = Some (False, s4) \<and>
      (\<exists>r s5 s6. button_is_clicked BUTTON_ON s1 = Some (r, s5) \<and>
                 button_is_clicked BUTTON_HORN s5 = Some (True, s6))"
    by blast
  with a a' p0 show ?thesis by simp
qed

section \<open>Ignition bytes outside the enum\<close>

lemma default_ignition:
  assumes "p \<noteq> IGNITION_START" "q \<noteq> IGNITION_START"
  shows "update_default (t\<lparr>ignition_position := p\<rparr>, h) =
     (case update_default (t\<lparr>ignition_position := q\<rparr>, h) of
        (t', h') \<Rightarrow> (t'\<lparr>ignition_position := p\<rparr>, h'))"
  using assms by (simp add: update_default_def update_engine_speed_def)

lemma cranking_ignition:
  assumes "p \<noteq> IGNITION_START" "q \<noteq> IGNITION_START"
  shows "update_cranking (t\<lparr>ignition_position := p\<rparr>, h) =
     (case update_cranking (t\<lparr>ignition_position := q\<rparr>, h) of
        (t', h') \<Rightarrow> (t'\<lparr>ignition_position := p\<rparr>, h'))"
  using assms by (simp add: update_cranking_def update_engine_speed_def Let_def)

lemma running_ignition:
  assumes "p \<noteq> IGNITION_OFF" "q \<noteq> IGNITION_OFF"
  shows "update_running (t\<lparr>ignition_position := p\<rparr>, h) =
     (case update_running (t\<lparr>ignition_position := q\<rparr>, h) of
        (t', h') \<Rightarrow> (t'\<lparr>ignition_position := p\<rparr>, h'))"
  using assms
  by (simp add: update_running_def update_engine_speed_def Let_def horn_timer_def
      tractor_get_engine_speed_def)

lemma led_ignition: "is_led_on (t\<lparr>ignition_position := p\<rparr>) = is_led_on t"
  by (simp add: is_led_on_def tractor_get_engine_speed_def)

lemma switch_ignition:
  assumes "p \<noteq> IGNITION_START" "q \<noteq> IGNITION_START" "p \<noteq> IGNITION_OFF" "q \<noteq> IGNITION_OFF"
  shows "update_switch (t\<lparr>ignition_position := p\<rparr>, h) =
     (case update_switch (t\<lparr>ignition_position := q\<rparr>, h) of
        (t', h') \<Rightarrow> (t'\<lparr>ignition_position := p\<rparr>, h'))"
  using default_ignition [OF assms(1,2)] cranking_ignition [OF assms(1,2)]
    running_ignition [OF assms(3,4)]
  by (simp add: update_switch_def)

lemma update_ignition:
  assumes "p \<noteq> IGNITION_START" "q \<noteq> IGNITION_START" "p \<noteq> IGNITION_OFF" "q \<noteq> IGNITION_OFF"
  shows "tractor_update_model (t\<lparr>ignition_position := p\<rparr>, h) =
     map_option (\<lambda>((t', h'), led). ((t'\<lparr>ignition_position := p\<rparr>, h'), led))
       (tractor_update_model (t\<lparr>ignition_position := q\<rparr>, h))"
  by (simp add: tractor_update_model_def switch_ignition [OF assms, of t h] led_ignition
      split: prod.splits option.splits)

lemma switch_status_other:
  assumes "p \<noteq> IGNITION_START" "p \<noteq> IGNITION_OFF"
  shows "ignition_position (fst (update_switch (t\<lparr>ignition_position := p\<rparr>, h))) = p"
    "status t = ENGINE_OFF \<Longrightarrow> status (fst (update_switch (t\<lparr>ignition_position := p\<rparr>, h))) = ENGINE_OFF"
    "status t = ENGINE_CRANKING \<Longrightarrow> CRANKING_MINIMUM_TIME < cranking_counter t + 1 \<Longrightarrow>
       status (fst (update_switch (t\<lparr>ignition_position := p\<rparr>, h))) = ENGINE_RUNNING"
    "status t = ENGINE_CRANKING \<Longrightarrow> \<not> CRANKING_MINIMUM_TIME < cranking_counter t + 1 \<Longrightarrow>
       status (fst (update_switch (t\<lparr>ignition_position := p\<rparr>, h))) = ENGINE_OFF \<and>
       engine_speed_setpoint (fst (update_switch (t\<lparr>ignition_position := p\<rparr>, h))) = 0"
    "status t = ENGINE_RUNNING \<Longrightarrow>
       status (fst (update_switch (t\<lparr>ignition_position := p\<rparr>, h))) = ENGINE_RUNNING"
  using assms
  by (simp_all add: update_switch_def update_default_def update_cranking_def update_running_def
      horn_timer_def Let_def ENGINE_OFF_def ENGINE_CRANKING_def ENGINE_RUNNING_def)

lemma update_fst:
  assumes "tractor_update_model st = Some ((t', h'), led)"
  shows "t' = fst (update_switch st)"
  using assms by (auto simp: tractor_update_model_def split: prod.splits option.splits)

text \<open>C10, as the code has it. \<open>tractor_set_ignition_position\<close> stores any byte.
  With a stored byte \<open>p\<close> that is neither \<open>IGNITION_OFF\<close> nor \<open>IGNITION_START\<close>,
  \<open>tractor_update_model\<close> does what it does with \<open>IGNITION_ON\<close>, the stored byte
  apart: from OFF the status stays OFF; from CRANKING the status becomes OFF with
  setpoint 0, unless the counter incremented by this call exceeds
  \<open>CRANKING_MINIMUM_TIME\<close>, in which case the status becomes RUNNING; from RUNNING
  the status stays RUNNING.\<close>

theorem other_ignition_values_act_as_on:
  assumes "p \<noteq> IGNITION_OFF" "p \<noteq> IGNITION_START" "horn_ok h"
  shows "tractor_set_ignition_position p t = t\<lparr>ignition_position := p\<rparr> \<and>
    tractor_update_model (t\<lparr>ignition_position := p\<rparr>, h) =
      map_option (\<lambda>((t', h'), led). ((t'\<lparr>ignition_position := p\<rparr>, h'), led))
        (tractor_update_model (t\<lparr>ignition_position := IGNITION_ON\<rparr>, h)) \<and>
    (\<exists>t' h' led. tractor_update_model (t\<lparr>ignition_position := p\<rparr>, h) = Some ((t', h'), led) \<and>
       ignition_position t' = p \<and>
       (status t = ENGINE_OFF \<longrightarrow> status t' = ENGINE_OFF) \<and>
       (status t = ENGINE_CRANKING \<longrightarrow>
          (if CRANKING_MINIMUM_TIME < cranking_counter t + 1
           then status t' = ENGINE_RUNNING
           else status t' = ENGINE_OFF \<and> engine_speed_setpoint t' = 0)) \<and>
       (status t = ENGINE_RUNNING \<longrightarrow> status t' = ENGINE_RUNNING))"
proof -
  have on: "IGNITION_ON \<noteq> IGNITION_START" "IGNITION_ON \<noteq> IGNITION_OFF"
    by (simp_all add: IGNITION_ON_def IGNITION_START_def IGNITION_OFF_def)
  from update_total [OF assms(3), of "t\<lparr>ignition_position := p\<rparr>"]
  obtain t' h' led where
    u: "tractor_update_model (t\<lparr>ignition_position := p\<rparr>, h) = Some ((t', h'), led)"
    by blast
  from update_fst [OF u]
  have t': "t' = fst (update_switch (t\<lparr>ignition_position := p\<rparr>, h))" .
  have c: "ignition_position t' = p \<and>
       (status t = ENGINE_OFF \<longrightarrow> status t' = ENGINE_OFF) \<and>
       (status t = ENGINE_CRANKING \<longrightarrow>
          (if CRANKING_MINIMUM_TIME < cranking_counter t + 1
           then status t' = ENGINE_RUNNING
           else status t' = ENGINE_OFF \<and> engine_speed_setpoint t' = 0)) \<and>
       (status t = ENGINE_RUNNING \<longrightarrow> status t' = ENGINE_RUNNING)"
    unfolding t' using switch_status_other [OF assms(2,1), of t h] by simp
  have a: "tractor_set_ignition_position p t = t\<lparr>ignition_position := p\<rparr>"
    by (simp add: tractor_set_ignition_position_def)
  from u c have "\<exists>t' h' led.
       tractor_update_model (t\<lparr>ignition_position := p\<rparr>, h) = Some ((t', h'), led) \<and>
       ignition_position t' = p \<and>
       (status t = ENGINE_OFF \<longrightarrow> status t' = ENGINE_OFF) \<and>
       (status t = ENGINE_CRANKING \<longrightarrow>
          (if CRANKING_MINIMUM_TIME < cranking_counter t + 1
           then status t' = ENGINE_RUNNING
           else status t' = ENGINE_OFF \<and> engine_speed_setpoint t' = 0)) \<and>
       (status t = ENGINE_RUNNING \<longrightarrow> status t' = ENGINE_RUNNING)"
    by blast
  with a update_ignition [OF assms(2) on(1) assms(1) on(2), of t h]
  show ?thesis by (intro conjI)
qed

theorem other_ignition_values_act_as_on_witness:
  "(5 :: uint8_t) \<noteq> IGNITION_OFF \<and> (5 :: uint8_t) \<noteq> IGNITION_START \<and> horn_ok horn_init \<and>
   status tractor_init = ENGINE_OFF \<and>
   (\<exists>t' h' led.
      tractor_update_model (tractor_init\<lparr>ignition_position := 5\<rparr>, horn_init) =
        Some ((t', h'), led) \<and> status t' = ENGINE_OFF) \<and>
   status (tractor_init\<lparr>status := ENGINE_CRANKING\<rparr>) = ENGINE_CRANKING \<and>
   \<not> CRANKING_MINIMUM_TIME < cranking_counter (tractor_init\<lparr>status := ENGINE_CRANKING\<rparr>) + 1 \<and>
   (\<exists>t' h' led.
      tractor_update_model
        (tractor_init\<lparr>status := ENGINE_CRANKING, ignition_position := 5\<rparr>, horn_init) =
        Some ((t', h'), led) \<and>
      ignition_position t' = 5 \<and> status t' = ENGINE_OFF \<and> engine_speed_setpoint t' = 0) \<and>
   status cruising = ENGINE_RUNNING \<and>
   (\<exists>t' h' led.
      tractor_update_model (cruising\<lparr>ignition_position := 5\<rparr>, horn_init) =
        Some ((t', h'), led) \<and> status t' = ENGINE_RUNNING)"
proof -
  have a: "(5 :: uint8_t) \<noteq> IGNITION_OFF" "(5 :: uint8_t) \<noteq> IGNITION_START"
    by (simp_all add: IGNITION_OFF_def IGNITION_START_def)
  have b: "status (tractor_init\<lparr>status := ENGINE_CRANKING\<rparr>) = ENGINE_CRANKING"
    "\<not> CRANKING_MINIMUM_TIME < cranking_counter (tractor_init\<lparr>status := ENGINE_CRANKING\<rparr>) + 1"
    by (simp_all add: tractor_init_def word_less_nat_alt)
  have c: "status tractor_init = ENGINE_OFF" "status cruising = ENGINE_RUNNING"
    by (simp_all add: tractor_init_def cruising_def)
  from other_ignition_values_act_as_on
         [OF a horn_init_ok, of "tractor_init\<lparr>status := ENGINE_CRANKING\<rparr>",
          THEN conjunct2, THEN conjunct2]
  obtain t' h' led where
    u: "tractor_update_model
        (tractor_init\<lparr>status := ENGINE_CRANKING, ignition_position := 5\<rparr>, horn_init) =
        Some ((t', h'), led)" "ignition_position t' = 5"
    and x: "status (tractor_init\<lparr>status := ENGINE_CRANKING\<rparr>) = ENGINE_CRANKING \<longrightarrow>
          (if CRANKING_MINIMUM_TIME < cranking_counter (tractor_init\<lparr>status := ENGINE_CRANKING\<rparr>) + 1
           then status t' = ENGINE_RUNNING
           else status t' = ENGINE_OFF \<and> engine_speed_setpoint t' = 0)"
    by blast
  from x b have "status t' = ENGINE_OFF \<and> engine_speed_setpoint t' = 0"
    by (simp only: if_False simp_thms)
  with u have 1: "\<exists>t' h' led.
      tractor_update_model
        (tractor_init\<lparr>status := ENGINE_CRANKING, ignition_position := 5\<rparr>, horn_init) =
        Some ((t', h'), led) \<and>
      ignition_position t' = 5 \<and> status t' = ENGINE_OFF \<and> engine_speed_setpoint t' = 0"
    by blast
  from other_ignition_values_act_as_on
         [OF a horn_init_ok, of tractor_init, THEN conjunct2, THEN conjunct2] c(1)
  have 2: "\<exists>t' h' led.
      tractor_update_model (tractor_init\<lparr>ignition_position := 5\<rparr>, horn_init) =
        Some ((t', h'), led) \<and> status t' = ENGINE_OFF"
    by blast
  from other_ignition_values_act_as_on
         [OF a horn_init_ok, of cruising, THEN conjunct2, THEN conjunct2] c(2)
  have 3: "\<exists>t' h' led.
      tractor_update_model (cruising\<lparr>ignition_position := 5\<rparr>, horn_init) =
        Some ((t', h'), led) \<and> status t' = ENGINE_RUNNING"
    by blast
  from a b c 1 2 3 horn_init_ok show ?thesis by (intro conjI)
qed

lemma cranked_step:
  "tractor_update_model (cranked, horn_init) =
     Some ((cranked\<lparr>engine_speed := 7009, status := ENGINE_RUNNING,
                    engine_speed_setpoint := 64, cranking_counter := 101,
                    led_counter := 75\<rparr>, horn_init), False)"
  by (simp add: tractor_update_model_def update_switch_def update_cranking_def cranked_def
      update_engine_speed_def tractor_get_engine_speed_def is_led_on_def horn_init_def
      audio_horn_manager_def ENGINE_RUNNING_def ENGINE_CRANKING_def ENGINE_OFF_def 
      ENGINE_SPEED_MIN_def ENGINE_SPEED_IDLE_def Let_def word_le_nat_alt word_less_nat_alt)



text \<open>C10, as stated, fails in its second case. \<open>cranked\<close> is cranking with the
  ignition byte 5, which is neither OFF nor START, and its counter is at the
  minimum cranking time: the call does not abort to OFF, it starts the engine.\<close>

theorem cranking_completes_without_start:
  "status cranked = ENGINE_CRANKING \<and> ignition_position cranked = 5 \<and>
   (5 :: uint8_t) \<noteq> IGNITION_OFF \<and> (5 :: uint8_t) \<noteq> IGNITION_START \<and>
   tractor_update_model (cranked, horn_init) =
     Some ((cranked\<lparr>engine_speed := 7009, status := ENGINE_RUNNING,
                    engine_speed_setpoint := 64, cranking_counter := 101,
                    led_counter := 75\<rparr>, horn_init), False) \<and>
   ENGINE_RUNNING \<noteq> ENGINE_OFF"
  using cranked_step
  by (simp add: cranked_def IGNITION_OFF_def IGNITION_START_def ENGINE_RUNNING_def
      ENGINE_OFF_def)

section \<open>The automatic honks\<close>

subsection \<open>The speed filter stays above the threshold\<close>

lemma speed_unat: "unat (tractor_get_engine_speed t) = unat (engine_speed t) div 256"
proof -
  have "unat (engine_speed t) < 65536" using unsigned_less [of "engine_speed t", where ?'a = nat] by simp
  then have "unat (engine_speed t) div 256 < 256" by simp
  then show ?thesis
    by (simp add: tractor_get_engine_speed_def unsigned_ucast_eq unat_drop_bit_eq
        drop_bit_eq_div take_bit_eq_mod unat_div)
qed

lemma filter_unat:
  "unat (engine_speed (update_engine_speed 6 t)) =
     (63 * unat (engine_speed t) + 256 * unat (engine_speed_setpoint t)) div 64"
proof -
  define s where "s = unat (engine_speed t)"
  define p where "p = unat (engine_speed_setpoint t)"
  have s: "s < 65536" unfolding s_def using unsigned_less [of "engine_speed t", where ?'a = nat] by simp
  have p: "p < 256" unfolding p_def using unsigned_less [of "engine_speed_setpoint t", where ?'a = nat] by simp
  have a: "unat (ucast (engine_speed t) :: 32 word) = s"
    using s by (simp add: unsigned_ucast_eq take_bit_eq_mod s_def)
  have b: "unat (push_bit 6 (ucast (engine_speed t) :: 32 word)) = 64 * s"
    using s a by (simp add: push_bit_eq_mult unat_word_ariths)
  have c: "unat (push_bit 6 (ucast (engine_speed t) :: 32 word) - ucast (engine_speed t)) = 63 * s"
    using a b by (simp add: unat_sub_if_size)
  have d: "unat (push_bit 8 (ucast (engine_speed_setpoint t) :: 16 word)) = 256 * p"
    using p by (simp add: push_bit_eq_mult unat_word_ariths unsigned_ucast_eq take_bit_eq_mod p_def)
  have e: "unat (ucast (push_bit 8 (ucast (engine_speed_setpoint t) :: 16 word)) :: 32 word) = 256 * p"
    using p d by (simp add: unsigned_ucast_eq [of "push_bit 8 (ucast (engine_speed_setpoint t) :: 16 word)", where ?'c = 32] take_bit_eq_mod)
  have f: "unat (push_bit 6 (ucast (engine_speed t) :: 32 word) - ucast (engine_speed t)
            + ucast (push_bit 8 (ucast (engine_speed_setpoint t) :: 16 word))) = 63 * s + 256 * p"
    using s p c e by (simp add: unat_word_ariths(1))
  have g: "(63 * s + 256 * p) div 64 < 65536" using s p by simp
  show ?thesis
    unfolding update_engine_speed_def s_def [symmetric] p_def [symmetric]
    using f g
    by (simp add: unsigned_ucast_eq unat_drop_bit_eq drop_bit_eq_div take_bit_eq_mod unat_div)
qed

lemma filter_keeps_above:
  assumes "ENGINE_SPEED_MIN \<le> tractor_get_engine_speed t"
    "ENGINE_SPEED_MIN \<le> engine_speed_setpoint t"
  shows "ENGINE_SPEED_MIN \<le> tractor_get_engine_speed (update_engine_speed 6 t)"
proof -
  from assms have "68 \<le> unat (engine_speed t) div 256" "68 \<le> unat (engine_speed_setpoint t)"
    by (simp_all add: ENGINE_SPEED_MIN_def word_le_nat_alt speed_unat)
  then have "68 \<le> ((63 * unat (engine_speed t) + 256 * unat (engine_speed_setpoint t)) div 64) div 256"
    by simp
  then show ?thesis
    by (simp add: ENGINE_SPEED_MIN_def word_le_nat_alt speed_unat filter_unat)
qed

subsection \<open>One tick and one cycle of the running engine\<close>

lemma running_tick:
  assumes "status t = ENGINE_RUNNING" "horn_ok h"
  shows "\<exists>t' h' led. tractor_update_model (t, h) = Some ((t', h'), led) \<and> horn_ok h' \<and>
     ignition_position t' = ignition_position t \<and>
     (status t' = ENGINE_RUNNING \<longleftrightarrow> ignition_position t \<noteq> IGNITION_OFF) \<and>
     (ignition_position t \<noteq> IGNITION_OFF \<longrightarrow>
       engine_speed_setpoint t' = engine_speed_setpoint t \<and>
       (if ENGINE_SPEED_MIN \<le> tractor_get_engine_speed t
        then horn_counter t' = (if HORN_CYCLE \<le> horn_counter t + 1 then 0 else horn_counter t + 1) \<and>
             engine_speed t' = engine_speed (update_engine_speed 6 t) \<and>
             audio_horn_manager
               (if horn_counter t + 1 = HORN_CYCLE div 2
                then audio_play_horn_song SONG_DOUBLE_HONK h
                else if HORN_CYCLE \<le> horn_counter t + 1
                then audio_play_horn_song SONG_SINGLE_HONK h
                else h) = Some h'
        else horn_counter t' = horn_counter t \<and> audio_horn_manager h = Some h'))"
proof -
  from update_total [OF assms(2), of t]
  obtain t' h' led where u: "tractor_update_model (t, h) = Some ((t', h'), led)" "horn_ok h'"
    by blast
  have sw: "update_switch (t, h) = update_running (t, h)"
    using assms(1) by (simp add: update_switch_def ENGINE_RUNNING_def ENGINE_CRANKING_def)
  from u(1) have t': "t' = fst (update_running (t, h))"
    and h': "audio_horn_manager (snd (update_running (t, h))) = Some h'"
    by (auto simp: tractor_update_model_def sw split: prod.splits option.splits)
  have es: "engine_speed (update_engine_speed 6 (x\<lparr>horn_counter := c\<rparr>)) =
     engine_speed (update_engine_speed 6 x)" for x c
    by (simp add: update_engine_speed_def)
  have "ignition_position t' = ignition_position t \<and>
     (status t' = ENGINE_RUNNING \<longleftrightarrow> ignition_position t \<noteq> IGNITION_OFF) \<and>
     (ignition_position t \<noteq> IGNITION_OFF \<longrightarrow>
       engine_speed_setpoint t' = engine_speed_setpoint t \<and>
       (if ENGINE_SPEED_MIN \<le> tractor_get_engine_speed t
        then horn_counter t' = (if HORN_CYCLE \<le> horn_counter t + 1 then 0 else horn_counter t + 1) \<and>
             engine_speed t' = engine_speed (update_engine_speed 6 t) \<and>
             audio_horn_manager
               (if horn_counter t + 1 = HORN_CYCLE div 2
                then audio_play_horn_song SONG_DOUBLE_HONK h
                else if HORN_CYCLE \<le> horn_counter t + 1
                then audio_play_horn_song SONG_SINGLE_HONK h
                else h) = Some h'
        else horn_counter t' = horn_counter t \<and> audio_horn_manager h = Some h'))"
    using h' assms(1) unfolding t'
    by (auto simp: update_running_def horn_timer_def Let_def es ENGINE_RUNNING_def ENGINE_OFF_def
        word_le_nat_alt split: if_splits)
  with u show ?thesis by blast
qed


lemma speed_cong:
  "engine_speed a = engine_speed b \<Longrightarrow> tractor_get_engine_speed a = tractor_get_engine_speed b"
  by (simp add: tractor_get_engine_speed_def)

lemma horn_count_word:
  assumes "k < 400"
  shows "\<not> HORN_CYCLE \<le> (of_nat k :: uint16_t)"
    "(HORN_CYCLE \<le> (of_nat k :: uint16_t) + 1) = (k = 399)"
    "((of_nat k :: uint16_t) + 1 = HORN_CYCLE div 2) = (k = 199)"
    "(of_nat k :: uint16_t) + 1 = of_nat (Suc k)"
proof -
  have a: "unat (of_nat k :: uint16_t) = k" using assms by (simp add: unat_of_nat)
  have b: "unat ((of_nat k :: uint16_t) + 1) = k + 1"
    using assms a by (simp add: unat_word_ariths)
  show "\<not> HORN_CYCLE \<le> (of_nat k :: uint16_t)"
    using assms a by (simp add: word_le_nat_alt)
  show "(HORN_CYCLE \<le> (of_nat k :: uint16_t) + 1) = (k = 399)"
    using assms b by (auto simp: word_le_nat_alt)
  show "((of_nat k :: uint16_t) + 1 = HORN_CYCLE div 2) = (k = 199)"
    using assms b by (auto simp: word_unat_eq_iff)
  show "(of_nat k :: uint16_t) + 1 = of_nat (Suc k)" by simp
qed

lemma honk_cycle_inv:
  assumes "status t = ENGINE_RUNNING" "ignition_position t \<noteq> IGNITION_OFF" "horn_ok h"
    "horn_counter t = 0" "ENGINE_SPEED_MIN \<le> tractor_get_engine_speed t"
    "ENGINE_SPEED_MIN \<le> engine_speed_setpoint t"
  shows "k < 400 \<Longrightarrow> \<exists>t1 h1. updates k (t, h) = Some (t1, h1) \<and>
     status t1 = ENGINE_RUNNING \<and> ignition_position t1 \<noteq> IGNITION_OFF \<and> horn_ok h1 \<and>
     ENGINE_SPEED_MIN \<le> tractor_get_engine_speed t1 \<and>
     ENGINE_SPEED_MIN \<le> engine_speed_setpoint t1 \<and> horn_counter t1 = of_nat k"
proof (induction k)
  case 0
  with assms show ?case by simp
next
  case (Suc k)
  then obtain t1 h1 where 1: "updates k (t, h) = Some (t1, h1)"
     "status t1 = ENGINE_RUNNING" "ignition_position t1 \<noteq> IGNITION_OFF" "horn_ok h1"
     "ENGINE_SPEED_MIN \<le> tractor_get_engine_speed t1"
     "ENGINE_SPEED_MIN \<le> engine_speed_setpoint t1" "horn_counter t1 = of_nat k"
    by auto
  from Suc.prems have k: "k < 400" "k \<noteq> 399" by simp_all
  from running_tick [OF 1(2) 1(4)] 1(3) 1(5) 1(7) horn_count_word(2,4) [OF k(1)] k(2)
  obtain t2 h2 led where 2: "tractor_update_model (t1, h1) = Some ((t2, h2), led)" "horn_ok h2"
    "ignition_position t2 = ignition_position t1" "status t2 = ENGINE_RUNNING"
    "engine_speed_setpoint t2 = engine_speed_setpoint t1"
    "horn_counter t2 = of_nat (Suc k)"
    "engine_speed t2 = engine_speed (update_engine_speed 6 t1)"
    by auto
  from speed_cong [OF 2(7)] filter_keeps_above [OF 1(5) 1(6)]
  have "ENGINE_SPEED_MIN \<le> tractor_get_engine_speed t2" by simp
  with 1 2 show ?case by simp
qed

text \<open>One manager call after the double honk, or the single honk, was started, the
  horn player is playing the first note of that song.\<close>

lemma started_double:
  "audio_horn_manager (audio_play_horn_song SONG_DOUBLE_HONK h) =
     Some \<lparr>song = SONG [64, 64, 0, 64, 64], current_note = 0, note_counter = 1,
           index_increment = 64, playing = True\<rparr>"
  by (simp add: audio_horn_manager_def audio_play_horn_song_def horn_advance_def
      horn_duration_def SONG_DOUBLE_HONK_def SONG_COUNT_def SONG_LIBRARY_def SONG_def
      MAX_SONG_SIZE_def Let_def word_le_nat_alt)

lemma started_single:
  "audio_horn_manager (audio_play_horn_song SONG_SINGLE_HONK h) =
     Some \<lparr>song = SONG [64, 64, 64], current_note = 0, note_counter = 1,
           index_increment = 64, playing = True\<rparr>"
  by (simp add: audio_horn_manager_def audio_play_horn_song_def horn_advance_def
      horn_duration_def SONG_SINGLE_HONK_def SONG_COUNT_def SONG_LIBRARY_def SONG_def
      MAX_SONG_SIZE_def Let_def word_le_nat_alt)

lemma running_call:
  assumes "status t = ENGINE_RUNNING" "horn_ok h"
  shows "\<exists>t' h' led. tractor_update_model (t, h) = Some ((t', h'), led) \<and> horn_ok h' \<and>
     ignition_position t' = ignition_position t \<and>
     (if ignition_position t = IGNITION_OFF
      then status t' = ENGINE_OFF \<and> horn_counter t' = horn_counter t \<and>
           audio_horn_manager h = Some h'
      else status t' = ENGINE_RUNNING \<and>
        engine_speed_setpoint t' = engine_speed_setpoint t \<and>
        (if ENGINE_SPEED_MIN \<le> tractor_get_engine_speed t
         then horn_counter t' =
                (if HORN_CYCLE \<le> horn_counter t + 1 then 0 else horn_counter t + 1) \<and>
              engine_speed t' = engine_speed (update_engine_speed 6 t) \<and>
              (if horn_counter t + 1 = HORN_CYCLE div 2
               then h' = \<lparr>song = SONG [64, 64, 0, 64, 64], current_note = 0, note_counter = 1,
                           index_increment = 64, playing = True\<rparr>
               else if HORN_CYCLE \<le> horn_counter t + 1
               then h' = \<lparr>song = SONG [64, 64, 64], current_note = 0, note_counter = 1,
                           index_increment = 64, playing = True\<rparr>
               else audio_horn_manager h = Some h')
         else horn_counter t' = horn_counter t \<and> audio_horn_manager h = Some h'))"
proof -
  from update_total [OF assms(2), of t]
  obtain t' h' led where u: "tractor_update_model (t, h) = Some ((t', h'), led)" "horn_ok h'"
    by blast
  have sw: "update_switch (t, h) = update_running (t, h)"
    using assms(1) by (simp add: update_switch_def ENGINE_RUNNING_def ENGINE_CRANKING_def)
  from u(1) have t': "t' = fst (update_running (t, h))"
    and h': "audio_horn_manager (snd (update_running (t, h))) = Some h'"
    by (auto simp: tractor_update_model_def sw split: prod.splits option.splits)
  have es: "engine_speed (update_engine_speed 6 (x\<lparr>horn_counter := c\<rparr>)) =
     engine_speed (update_engine_speed 6 x)" for x c
    by (simp add: update_engine_speed_def)
  have "ignition_position t' = ignition_position t \<and>
     (if ignition_position t = IGNITION_OFF
      then status t' = ENGINE_OFF \<and> horn_counter t' = horn_counter t \<and>
           audio_horn_manager h = Some h'
      else status t' = ENGINE_RUNNING \<and>
        engine_speed_setpoint t' = engine_speed_setpoint t \<and>
        (if ENGINE_SPEED_MIN \<le> tractor_get_engine_speed t
         then horn_counter t' =
                (if HORN_CYCLE \<le> horn_counter t + 1 then 0 else horn_counter t + 1) \<and>
              engine_speed t' = engine_speed (update_engine_speed 6 t) \<and>
              (if horn_counter t + 1 = HORN_CYCLE div 2
               then h' = \<lparr>song = SONG [64, 64, 0, 64, 64], current_note = 0, note_counter = 1,
                           index_increment = 64, playing = True\<rparr>
               else if HORN_CYCLE \<le> horn_counter t + 1
               then h' = \<lparr>song = SONG [64, 64, 64], current_note = 0, note_counter = 1,
                           index_increment = 64, playing = True\<rparr>
               else audio_horn_manager h = Some h')
         else horn_counter t' = horn_counter t \<and> audio_horn_manager h = Some h'))"
    using h' assms(1) unfolding t'
    by (auto simp: update_running_def horn_timer_def Let_def es ENGINE_RUNNING_def ENGINE_OFF_def
        started_double started_single word_le_nat_alt split: if_splits)
  with u show ?thesis by blast
qed

lemma switched_off_step:
  "tractor_update_model (switched_off, horn_init) =
     Some ((\<lparr>engine_speed = 20000, horn_counter = 7, status = ENGINE_OFF,
             engine_speed_setpoint = 0, ignition_position = IGNITION_OFF,
             cranking_counter = 101, led_counter = 12\<rparr>, horn_init), False)"
  "tractor_get_engine_speed switched_off = 78"
  by (simp_all add: tractor_update_model_def update_switch_def update_running_def
      switched_off_def tractor_get_engine_speed_def is_led_on_def horn_init_def
      audio_horn_manager_def ENGINE_RUNNING_def ENGINE_CRANKING_def ENGINE_OFF_def
      IGNITION_OFF_def ENGINE_SPEED_MIN_def Let_def word_le_nat_alt)


text \<open>C7, as the code has it. Take a call of \<open>tractor_update_model\<close> in status
  RUNNING. With the ignition at OFF the call leaves the status OFF and the horn
  counter as it was, and starts no song. With the ignition not at OFF the status
  stays RUNNING, and: with the public speed at or above \<open>ENGINE_SPEED_MIN\<close> = 68
  the horn counter is incremented; when the incremented counter equals
  \<open>HORN_CYCLE / 2\<close> the double honk is started, so that the horn player leaves the
  call playing the first note of the double honk; when it reaches \<open>HORN_CYCLE\<close>
  the counter is set back to 0 and the single honk is started in the same way;
  otherwise the horn player only goes through its manager. With the speed below
  the threshold the counter keeps its value and the horn player only goes
  through its manager.
  Over a cycle: from counter 0, with speed and setpoint at or above the threshold
  and the ignition not OFF, the first 400 calls all return, the engine is running
  above the threshold before each of them, call \<open>k + 1\<close> finds the counter at \<open>k\<close>,
  the double honk is started by call 200 and by no other, the single honk by call
  400 and by no other, and call 400 leaves the counter at 0.\<close>

theorem auto_honk_cycle:
  assumes "status t = ENGINE_RUNNING" "horn_ok h"
  shows "(SONG_LIBRARY ! unat SONG_DOUBLE_HONK = SONG [64, 64, 0, 64, 64] \<and>
    SONG_LIBRARY ! unat SONG_SINGLE_HONK = SONG [64, 64, 64] \<and>
    HORN_CYCLE = 400) \<and>
    (\<exists>t' h' led. tractor_update_model (t, h) = Some ((t', h'), led) \<and>
      (if ignition_position t = IGNITION_OFF
       then status t' = ENGINE_OFF \<and> horn_counter t' = horn_counter t \<and>
            audio_horn_manager h = Some h'
       else status t' = ENGINE_RUNNING \<and>
         (if ENGINE_SPEED_MIN \<le> tractor_get_engine_speed t
          then horn_counter t' =
                 (if HORN_CYCLE \<le> horn_counter t + 1 then 0 else horn_counter t + 1) \<and>
               (if horn_counter t + 1 = HORN_CYCLE div 2
                then h' = \<lparr>song = SONG [64, 64, 0, 64, 64], current_note = 0, note_counter = 1,
                        index_increment = 64, playing = True\<rparr>
                else if HORN_CYCLE \<le> horn_counter t + 1
                then h' = \<lparr>song = SONG [64, 64, 64], current_note = 0, note_counter = 1,
                        index_increment = 64, playing = True\<rparr>
                else audio_horn_manager h = Some h')
          else horn_counter t' = horn_counter t \<and> audio_horn_manager h = Some h'))) \<and>
    (ignition_position t \<noteq> IGNITION_OFF \<and> horn_counter t = 0 \<and>
     ENGINE_SPEED_MIN \<le> tractor_get_engine_speed t \<and>
     ENGINE_SPEED_MIN \<le> engine_speed_setpoint t \<longrightarrow>
     (\<forall>k<400. \<exists>t1 h1 t2 h2 led.
         updates k (t, h) = Some (t1, h1) \<and>
         tractor_update_model (t1, h1) = Some ((t2, h2), led) \<and>
         status t1 = ENGINE_RUNNING \<and> status t2 = ENGINE_RUNNING \<and>
         ENGINE_SPEED_MIN \<le> tractor_get_engine_speed t1 \<and>
         horn_counter t1 = of_nat k \<and>
         horn_counter t2 = (if k = 399 then 0 else of_nat (Suc k)) \<and>
         (if k = 199 then h2 = \<lparr>song = SONG [64, 64, 0, 64, 64], current_note = 0, note_counter = 1,
                        index_increment = 64, playing = True\<rparr>
          else if k = 399 then h2 = \<lparr>song = SONG [64, 64, 64], current_note = 0, note_counter = 1,
                        index_increment = 64, playing = True\<rparr>
          else audio_horn_manager h1 = Some h2)))"
proof (intro conjI impI allI)
  show "SONG_LIBRARY ! unat SONG_DOUBLE_HONK = SONG [64, 64, 0, 64, 64]"
    "SONG_LIBRARY ! unat SONG_SINGLE_HONK = SONG [64, 64, 64]" "HORN_CYCLE = 400"
    by (simp_all add: SONG_LIBRARY_def SONG_DOUBLE_HONK_def SONG_SINGLE_HONK_def)
next
  from running_call [OF assms]
  obtain t' h' led where u: "tractor_update_model (t, h) = Some ((t', h'), led)"
    and c: "if ignition_position t = IGNITION_OFF
      then status t' = ENGINE_OFF \<and> horn_counter t' = horn_counter t \<and>
           audio_horn_manager h = Some h'
      else status t' = ENGINE_RUNNING \<and>
        engine_speed_setpoint t' = engine_speed_setpoint t \<and>
        (if ENGINE_SPEED_MIN \<le> tractor_get_engine_speed t
         then horn_counter t' =
                (if HORN_CYCLE \<le> horn_counter t + 1 then 0 else horn_counter t + 1) \<and>
              engine_speed t' = engine_speed (update_engine_speed 6 t) \<and>
              (if horn_counter t + 1 = HORN_CYCLE div 2
               then h' = \<lparr>song = SONG [64, 64, 0, 64, 64], current_note = 0, note_counter = 1,
                        index_increment = 64, playing = True\<rparr>
               else if HORN_CYCLE \<le> horn_counter t + 1
               then h' = \<lparr>song = SONG [64, 64, 64], current_note = 0, note_counter = 1,
                        index_increment = 64, playing = True\<rparr>
               else audio_horn_manager h = Some h')
         else horn_counter t' = horn_counter t \<and> audio_horn_manager h = Some h')"
    by blast
  from c have "if ignition_position t = IGNITION_OFF
       then status t' = ENGINE_OFF \<and> horn_counter t' = horn_counter t \<and>
            audio_horn_manager h = Some h'
       else status t' = ENGINE_RUNNING \<and>
         (if ENGINE_SPEED_MIN \<le> tractor_get_engine_speed t
          then horn_counter t' =
                 (if HORN_CYCLE \<le> horn_counter t + 1 then 0 else horn_counter t + 1) \<and>
               (if horn_counter t + 1 = HORN_CYCLE div 2
                then h' = \<lparr>song = SONG [64, 64, 0, 64, 64], current_note = 0, note_counter = 1,
                        index_increment = 64, playing = True\<rparr>
                else if HORN_CYCLE \<le> horn_counter t + 1
                then h' = \<lparr>song = SONG [64, 64, 64], current_note = 0, note_counter = 1,
                        index_increment = 64, playing = True\<rparr>
                else audio_horn_manager h = Some h')
          else horn_counter t' = horn_counter t \<and> audio_horn_manager h = Some h')"
    by (simp split: if_splits)
  with u show "(\<exists>t' h' led. tractor_update_model (t, h) = Some ((t', h'), led) \<and>
      (if ignition_position t = IGNITION_OFF
       then status t' = ENGINE_OFF \<and> horn_counter t' = horn_counter t \<and>
            audio_horn_manager h = Some h'
       else status t' = ENGINE_RUNNING \<and>
         (if ENGINE_SPEED_MIN \<le> tractor_get_engine_speed t
          then horn_counter t' =
                 (if HORN_CYCLE \<le> horn_counter t + 1 then 0 else horn_counter t + 1) \<and>
               (if horn_counter t + 1 = HORN_CYCLE div 2
                then h' = \<lparr>song = SONG [64, 64, 0, 64, 64], current_note = 0, note_counter = 1,
                        index_increment = 64, playing = True\<rparr>
                else if HORN_CYCLE \<le> horn_counter t + 1
                then h' = \<lparr>song = SONG [64, 64, 64], current_note = 0, note_counter = 1,
                        index_increment = 64, playing = True\<rparr>
                else audio_horn_manager h = Some h')
          else horn_counter t' = horn_counter t \<and> audio_horn_manager h = Some h')))" by blast
next
  fix k :: nat
  assume pre: "ignition_position t \<noteq> IGNITION_OFF \<and> horn_counter t = 0 \<and>
     ENGINE_SPEED_MIN \<le> tractor_get_engine_speed t \<and>
     ENGINE_SPEED_MIN \<le> engine_speed_setpoint t" and k: "k < 400"
  from honk_cycle_inv [OF assms(1) _ assms(2) _ _ _ k] pre
  obtain t1 h1 where 1: "updates k (t, h) = Some (t1, h1)"
     "status t1 = ENGINE_RUNNING" "ignition_position t1 \<noteq> IGNITION_OFF" "horn_ok h1"
     "ENGINE_SPEED_MIN \<le> tractor_get_engine_speed t1"
     "ENGINE_SPEED_MIN \<le> engine_speed_setpoint t1" "horn_counter t1 = of_nat k"
    by blast
  from running_call [OF 1(2) 1(4)]
  obtain t2 h2 led where u: "tractor_update_model (t1, h1) = Some ((t2, h2), led)"
    and c: "if ignition_position t1 = IGNITION_OFF
      then status t2 = ENGINE_OFF \<and> horn_counter t2 = horn_counter t1 \<and>
           audio_horn_manager h1 = Some h2
      else status t2 = ENGINE_RUNNING \<and>
        engine_speed_setpoint t2 = engine_speed_setpoint t1 \<and>
        (if ENGINE_SPEED_MIN \<le> tractor_get_engine_speed t1
         then horn_counter t2 =
                (if HORN_CYCLE \<le> horn_counter t1 + 1 then 0 else horn_counter t1 + 1) \<and>
              engine_speed t2 = engine_speed (update_engine_speed 6 t1) \<and>
              (if horn_counter t1 + 1 = HORN_CYCLE div 2
               then h2 = \<lparr>song = SONG [64, 64, 0, 64, 64], current_note = 0, note_counter = 1,
                        index_increment = 64, playing = True\<rparr>
               else if HORN_CYCLE \<le> horn_counter t1 + 1
               then h2 = \<lparr>song = SONG [64, 64, 64], current_note = 0, note_counter = 1,
                        index_increment = 64, playing = True\<rparr>
               else audio_horn_manager h1 = Some h2)
         else horn_counter t2 = horn_counter t1 \<and> audio_horn_manager h1 = Some h2)"
    by blast
  from c 1(3) 1(5)
  have cc: "status t2 = ENGINE_RUNNING \<and>
        engine_speed_setpoint t2 = engine_speed_setpoint t1 \<and>
        horn_counter t2 =
                (if HORN_CYCLE \<le> horn_counter t1 + 1 then 0 else horn_counter t1 + 1) \<and>
        engine_speed t2 = engine_speed (update_engine_speed 6 t1) \<and>
        (if horn_counter t1 + 1 = HORN_CYCLE div 2
               then h2 = \<lparr>song = SONG [64, 64, 0, 64, 64], current_note = 0, note_counter = 1,
                        index_increment = 64, playing = True\<rparr>
               else if HORN_CYCLE \<le> horn_counter t1 + 1
               then h2 = \<lparr>song = SONG [64, 64, 64], current_note = 0, note_counter = 1,
                        index_increment = 64, playing = True\<rparr>
               else audio_horn_manager h1 = Some h2)"
    by (simp only: if_True if_False simp_thms) (elim conjE, assumption)
  note r = cc [THEN conjunct1]
  note x = cc [THEN conjunct2, THEN conjunct2, THEN conjunct1]
  note y = cc [THEN conjunct2, THEN conjunct2, THEN conjunct2, THEN conjunct2]
  note x' = x [unfolded 1(7) horn_count_word(2) [OF k], unfolded horn_count_word(4) [OF k]]
  note y' = y [unfolded 1(7) horn_count_word(2) [OF k] horn_count_word(3) [OF k]]
  from 1 u r x' y' show "\<exists>t1 h1 t2 h2 led.
         updates k (t, h) = Some (t1, h1) \<and>
         tractor_update_model (t1, h1) = Some ((t2, h2), led) \<and>
         status t1 = ENGINE_RUNNING \<and> status t2 = ENGINE_RUNNING \<and>
         ENGINE_SPEED_MIN \<le> tractor_get_engine_speed t1 \<and>
         horn_counter t1 = of_nat k \<and>
         horn_counter t2 = (if k = 399 then 0 else of_nat (Suc k)) \<and>
         (if k = 199 then h2 = \<lparr>song = SONG [64, 64, 0, 64, 64], current_note = 0, note_counter = 1,
                        index_increment = 64, playing = True\<rparr>
          else if k = 399 then h2 = \<lparr>song = SONG [64, 64, 64], current_note = 0, note_counter = 1,
                        index_increment = 64, playing = True\<rparr>
          else audio_horn_manager h1 = Some h2)"
    by blast
qed


theorem auto_honk_cycle_witness:
  "status cruising = ENGINE_RUNNING \<and> horn_ok horn_init \<and>
   ignition_position cruising \<noteq> IGNITION_OFF \<and> horn_counter cruising = 0 \<and>
   ENGINE_SPEED_MIN \<le> tractor_get_engine_speed cruising \<and>
   ENGINE_SPEED_MIN \<le> engine_speed_setpoint cruising \<and>
   (\<exists>t1 h1 t2 h2 led.
      updates 199 (cruising, horn_init) = Some (t1, h1) \<and>
      tractor_update_model (t1, h1) = Some ((t2, h2), led) \<and>
      status t1 = ENGINE_RUNNING \<and> status t2 = ENGINE_RUNNING \<and>
      horn_counter t1 = 199 \<and> horn_counter t2 = 200 \<and>
      h2 = \<lparr>song = SONG [64, 64, 0, 64, 64], current_note = 0, note_counter = 1,
                        index_increment = 64, playing = True\<rparr>) \<and>
   (\<exists>t1 h1 t2 h2 led.
      updates 399 (cruising, horn_init) = Some (t1, h1) \<and>
      tractor_update_model (t1, h1) = Some ((t2, h2), led) \<and>
      status t1 = ENGINE_RUNNING \<and> status t2 = ENGINE_RUNNING \<and>
      horn_counter t1 = 399 \<and> horn_counter t2 = 0 \<and>
      h2 = \<lparr>song = SONG [64, 64, 64], current_note = 0, note_counter = 1,
                        index_increment = 64, playing = True\<rparr>) \<and>
   status idling = ENGINE_RUNNING \<and> ignition_position idling \<noteq> IGNITION_OFF \<and>
   \<not> ENGINE_SPEED_MIN \<le> tractor_get_engine_speed idling \<and>
   (\<exists>t' h' led.
      tractor_update_model (idling, horn_init) = Some ((t', h'), led) \<and>
      status t' = ENGINE_RUNNING \<and> horn_counter t' = horn_counter idling \<and>
      audio_horn_manager horn_init = Some h')"
proof -
  have a: "status cruising = ENGINE_RUNNING"
    and b: "ignition_position cruising \<noteq> IGNITION_OFF \<and> horn_counter cruising = 0 \<and>
      ENGINE_SPEED_MIN \<le> tractor_get_engine_speed cruising \<and>
      ENGINE_SPEED_MIN \<le> engine_speed_setpoint cruising"
    by (simp_all add: cruising_def IGNITION_ON_def IGNITION_OFF_def ENGINE_SPEED_MIN_def
        tractor_get_engine_speed_def word_le_nat_alt)
  note cycle = auto_honk_cycle [OF a horn_init_ok, THEN conjunct2, THEN conjunct2,
      rule_format, OF b]
  have "(199 :: nat) < 400" by simp
  from cycle [OF this]
  obtain t1 h1 t2 h2 led where
    "updates 199 (cruising, horn_init) = Some (t1, h1)"
    "tractor_update_model (t1, h1) = Some ((t2, h2), led)"
    "status t1 = ENGINE_RUNNING" "status t2 = ENGINE_RUNNING"
    "horn_counter t1 = 199" "horn_counter t2 = 200"
    "h2 = \<lparr>song = SONG [64, 64, 0, 64, 64], current_note = 0, note_counter = 1,
                        index_increment = 64, playing = True\<rparr>"
    by (elim exE conjE) simp
  then have 1: "\<exists>t1 h1 t2 h2 led.
      updates 199 (cruising, horn_init) = Some (t1, h1) \<and>
      tractor_update_model (t1, h1) = Some ((t2, h2), led) \<and>
      status t1 = ENGINE_RUNNING \<and> status t2 = ENGINE_RUNNING \<and>
      horn_counter t1 = 199 \<and> horn_counter t2 = 200 \<and>
      h2 = \<lparr>song = SONG [64, 64, 0, 64, 64], current_note = 0, note_counter = 1,
                        index_increment = 64, playing = True\<rparr>"
    by blast
  have "(399 :: nat) < 400" by simp
  from cycle [OF this]
  obtain t1 h1 t2 h2 led where
    "updates 399 (cruising, horn_init) = Some (t1, h1)"
    "tractor_update_model (t1, h1) = Some ((t2, h2), led)"
    "status t1 = ENGINE_RUNNING" "status t2 = ENGINE_RUNNING"
    "horn_counter t1 = 399" "horn_counter t2 = 0"
    "h2 = \<lparr>song = SONG [64, 64, 64], current_note = 0, note_counter = 1,
                        index_increment = 64, playing = True\<rparr>"
    by (elim exE conjE) simp
  then have 2: "\<exists>t1 h1 t2 h2 led.
      updates 399 (cruising, horn_init) = Some (t1, h1) \<and>
      tractor_update_model (t1, h1) = Some ((t2, h2), led) \<and>
      status t1 = ENGINE_RUNNING \<and> status t2 = ENGINE_RUNNING \<and>
      horn_counter t1 = 399 \<and> horn_counter t2 = 0 \<and>
      h2 = \<lparr>song = SONG [64, 64, 64], current_note = 0, note_counter = 1,
                        index_increment = 64, playing = True\<rparr>"
    by blast
  have c: "status idling = ENGINE_RUNNING" and d: "ignition_position idling \<noteq> IGNITION_OFF"
    and e: "\<not> ENGINE_SPEED_MIN \<le> tractor_get_engine_speed idling"
    by (simp_all add: idling_def IGNITION_ON_def IGNITION_OFF_def ENGINE_SPEED_MIN_def
        tractor_get_engine_speed_def word_le_nat_alt)
  from auto_honk_cycle [OF c horn_init_ok, THEN conjunct2, THEN conjunct1]
  obtain t' h' led where u: "tractor_update_model (idling, horn_init) = Some ((t', h'), led)"
    and x: "if ignition_position idling = IGNITION_OFF
       then status t' = ENGINE_OFF \<and> horn_counter t' = horn_counter idling \<and>
            audio_horn_manager horn_init = Some h'
       else status t' = ENGINE_RUNNING \<and>
         (if ENGINE_SPEED_MIN \<le> tractor_get_engine_speed idling
          then horn_counter t' =
                 (if HORN_CYCLE \<le> horn_counter idling + 1 then 0 else horn_counter idling + 1) \<and>
               (if horn_counter idling + 1 = HORN_CYCLE div 2
                then h' = \<lparr>song = SONG [64, 64, 0, 64, 64], current_note = 0, note_counter = 1,
                        index_increment = 64, playing = True\<rparr>
                else if HORN_CYCLE \<le> horn_counter idling + 1
                then h' = \<lparr>song = SONG [64, 64, 64], current_note = 0, note_counter = 1,
                        index_increment = 64, playing = True\<rparr>
                else audio_horn_manager horn_init = Some h')
          else horn_counter t' = horn_counter idling \<and> audio_horn_manager horn_init = Some h')"
    by blast
  from x d e have "status t' = ENGINE_RUNNING \<and> horn_counter t' = horn_counter idling \<and>
      audio_horn_manager horn_init = Some h'"
    by (simp only: if_False simp_thms)
  with u have 3: "\<exists>t' h' led.
      tractor_update_model (idling, horn_init) = Some ((t', h'), led) \<and>
      status t' = ENGINE_RUNNING \<and> horn_counter t' = horn_counter idling \<and>
      audio_horn_manager horn_init = Some h'"
    by blast
  from a b 1 2 c d e 3 horn_init_ok show ?thesis by (intro conjI) simp_all
qed

text \<open>C7, as stated, fails with the key at OFF: \<open>switched_off\<close> is running at
  public speed 78 with the horn counter at 7; the call switches the engine off
  and leaves the counter at 7.\<close>

theorem honk_counter_kept_when_switched_off:
  "status switched_off = ENGINE_RUNNING \<and>
   ENGINE_SPEED_MIN \<le> tractor_get_engine_speed switched_off \<and>
   horn_counter switched_off = 7 \<and>
   tractor_update_model (switched_off, horn_init) =
     Some ((\<lparr>engine_speed = 20000, horn_counter = 7, status = ENGINE_OFF,
             engine_speed_setpoint = 0, ignition_position = IGNITION_OFF,
             cranking_counter = 101, led_counter = 12\<rparr>, horn_init), False)"
  using switched_off_step by (simp add: switched_off_def ENGINE_SPEED_MIN_def)

end
